theory Spec2Isabelle
  imports Main
begin

section \<open>Python strings and values\<close>

text \<open>
  The report compiler of \<^verbatim>\<open>src/api/query_builder.py\<close> builds SQL text by string
  concatenation.  Strings are \<open>string\<close> (lists of characters); the few library routines
  the compiler relies on (\<^verbatim>\<open>str\<close> of an integer, \<^verbatim>\<open>str.join\<close>,
  \<^verbatim>\<open>str.replace\<close>, \<^verbatim>\<open>str.upper\<close>, \<^verbatim>\<open>str.lower\<close>) are written out.
\<close>

definition is_digit :: "char \<Rightarrow> bool" where
  "is_digit c = (48 \<le> (of_char c :: nat) \<and> (of_char c :: nat) \<le> 57)"

definition digit_char :: "nat \<Rightarrow> char" where
  "digit_char n = char_of (48 + n)"

function str_nat :: "nat \<Rightarrow> string" where
  "str_nat n = (if n < 10 then [digit_char n] else str_nat (n div 10) @ [digit_char (n mod 10)])"
  by pat_completeness auto
termination
  by (relation "measure id") auto

declare str_nat.simps [simp del]

definition str_int :: "int \<Rightarrow> string" where
  "str_int i = (if i < 0 then CHR ''-'' # str_nat (nat (- i)) else str_nat (nat i))"

text \<open>\<^verbatim>\<open>sep.join(parts)\<close>\<close>

fun join_str :: "string \<Rightarrow> string list \<Rightarrow> string" where
  "join_str sep [] = []"
| "join_str sep [x] = x"
| "join_str sep (x # y # ys) = x @ sep @ join_str sep (y # ys)"

text \<open>
  \<^verbatim>\<open>s.replace(old, new)\<close>: every non-overlapping occurrence of \<open>old\<close>, found from the
  left, is replaced.
\<close>

function replace_str :: "string \<Rightarrow> string \<Rightarrow> string \<Rightarrow> string" where
  "replace_str old new s =
     (if old = [] then new @ concat (map (\<lambda>c. c # new) s)
      else if s = [] then []
      else if take (length old) s = old
        then new @ replace_str old new (drop (length old) s)
      else hd s # replace_str old new (tl s))"
  by pat_completeness auto
termination
  by (relation "measure (\<lambda>(old, new, s). length s)") auto

declare replace_str.simps [simp del]

text \<open>
  \<^verbatim>\<open>upper\<close> and \<^verbatim>\<open>lower\<close> on the ASCII letters.  (Python also maps a
  few non-ASCII letters to ASCII ones; the registry's join kinds and the sort directions
  compared below are ASCII words.)
\<close>

definition upper_char :: "char \<Rightarrow> char" where
  "upper_char c =
     (if 97 \<le> (of_char c :: nat) \<and> (of_char c :: nat) \<le> 122
      then char_of ((of_char c :: nat) - 32) else c)"

definition lower_char :: "char \<Rightarrow> char" where
  "lower_char c =
     (if 65 \<le> (of_char c :: nat) \<and> (of_char c :: nat) \<le> 90
      then char_of ((of_char c :: nat) + 32) else c)"

definition upper :: "string \<Rightarrow> string" where
  "upper s = map upper_char s"

definition lower :: "string \<Rightarrow> string" where
  "lower s = map lower_char s"

text \<open>
  The values a filter may carry (\<^verbatim>\<open>Optional[Any]\<close> decoded from JSON): \<^verbatim>\<open>None\<close>,
  booleans, integers, strings and lists of these.  Floating-point numbers and
  dictionaries are outside this model.
\<close>

datatype pyval = PNone | PBool bool | PInt int | PStr string | PList "pyval list"

definition hex_digit :: "nat \<Rightarrow> char" where
  "hex_digit n = ''0123456789abcdef'' ! (n mod 16)"

text \<open>
  \<^verbatim>\<open>repr\<close> of a string (needed for \<^verbatim>\<open>str\<close> of a list): the quote is a double quote
  when the string holds a single quote and no double quote; the quote, the backslash and
  the control characters are escaped.  Bytes above 127 are passed through, as Python does
  for printable non-ASCII characters.
\<close>

definition repr_char :: "char \<Rightarrow> char \<Rightarrow> string" where
  "repr_char q c =
     (if c = q \<or> c = CHR 0x5C then [CHR 0x5C, c]
      else if c = CHR 0x09 then [CHR 0x5C, CHR ''t'']
      else if c = CHR 0x0A then [CHR 0x5C, CHR ''n'']
      else if c = CHR 0x0D then [CHR 0x5C, CHR ''r'']
      else if (of_char c :: nat) < 32 \<or> (of_char c :: nat) = 127
        then [CHR 0x5C, CHR ''x'', hex_digit ((of_char c :: nat) div 16), hex_digit (of_char c)]
      else [c])"

definition repr_str :: "string \<Rightarrow> string" where
  "repr_str s =
     (let q = (if CHR 0x27 \<in> set s \<and> CHR 0x22 \<notin> set s then CHR 0x22 else CHR 0x27)
      in q # concat (map (repr_char q) s) @ [q])"

fun py_repr :: "pyval \<Rightarrow> string" where
  "py_repr PNone = ''None''"
| "py_repr (PBool b) = (if b then ''True'' else ''False'')"
| "py_repr (PInt i) = str_int i"
| "py_repr (PStr s) = repr_str s"
| "py_repr (PList xs) = ''['' @ join_str '', '' (map py_repr xs) @ '']''"

text \<open>\<^verbatim>\<open>str(v)\<close>, which is also what an f-string \<^verbatim>\<open>f'{v}'\<close> inserts.\<close>

definition py_str :: "pyval \<Rightarrow> string" where
  "py_str v = (case v of PStr s \<Rightarrow> s | _ \<Rightarrow> py_repr v)"

datatype error = ValueError string | KeyError string | OverflowError string

section \<open>The entity registry (\<^verbatim>\<open>src/api/entities.py\<close>)\<close>

text \<open>
  Only the attributes the compiler reads are kept: a field's \<^verbatim>\<open>id\<close> and
  \<^verbatim>\<open>name\<close>, a relationship's endpoints and join kind, an entity's schema, table,
  fields and relationships.  Display names, types, flags and defaults are never read by
  \<^verbatim>\<open>query_builder.py\<close>.
\<close>

datatype AggregationType = Agg_COUNT | Agg_SUM | Agg_AVG | Agg_MIN | Agg_MAX | Agg_COUNT_DISTINCT

fun aggregation_value :: "AggregationType \<Rightarrow> string" where
  "aggregation_value Agg_COUNT = ''count''"
| "aggregation_value Agg_SUM = ''sum''"
| "aggregation_value Agg_AVG = ''avg''"
| "aggregation_value Agg_MIN = ''min''"
| "aggregation_value Agg_MAX = ''max''"
| "aggregation_value Agg_COUNT_DISTINCT = ''count_distinct''"

record EntityField =
  ef_id :: string
  ef_name :: string

record EntityRelationship =
  target_entity :: string
  source_field :: string
  target_field :: string
  join_type :: string

record Entity =
  schema_name :: string
  table_name :: string
  entity_fields :: "EntityField list"
  relationships :: "EntityRelationship list"

text \<open>
  \<^verbatim>\<open>ENTITIES: Dict[str, Entity]\<close> is an insertion-ordered dictionary: an association
  list whose order is the iteration order of \<^verbatim>\<open>ENTITIES.items()\<close>.
\<close>

type_synonym registry = "(string \<times> Entity) list"

definition get_entity :: "registry \<Rightarrow> string \<Rightarrow> Entity option" where
  "get_entity reg entity_id = map_of reg entity_id"

definition mk_field :: "string \<Rightarrow> EntityField" where
  "mk_field n = \<lparr>ef_id = n, ef_name = n\<rparr>"

definition mk_rel :: "string \<Rightarrow> string \<Rightarrow> string \<Rightarrow> string \<Rightarrow> EntityRelationship" where
  "mk_rel t sf tf jt = \<lparr>target_entity = t, source_field = sf, target_field = tf, join_type = jt\<rparr>"

definition mk_entity ::
  "string \<Rightarrow> string \<Rightarrow> EntityField list \<Rightarrow> EntityRelationship list \<Rightarrow> Entity" where
  "mk_entity s t fs rs = \<lparr>schema_name = s, table_name = t, entity_fields = fs, relationships = rs\<rparr>"

text \<open>The shipped catalogue, in the order of the source (every field has \<^verbatim>\<open>name = id\<close>).\<close>

definition ENTITIES :: registry where
  "ENTITIES =
   [(''objects'', mk_entity ''raw_business_data'' ''objects''
       (map mk_field [''object_id'', ''object_label'', ''device_id'', ''client_id'', ''group_id'',
          ''model'', ''create_datetime'', ''is_deleted'', ''is_clone'', ''record_added_at''])
       [mk_rel ''devices'' ''device_id'' ''device_id'' ''left'',
        mk_rel ''groups'' ''group_id'' ''group_id'' ''left'',
        mk_rel ''vehicles'' ''object_id'' ''object_id'' ''left'',
        mk_rel ''employees'' ''object_id'' ''object_id'' ''left'']),
    (''vehicles'', mk_entity ''raw_business_data'' ''vehicles''
       (map mk_field [''vehicle_id'', ''vehicle_label'', ''registration_number'', ''vin'', ''model'',
          ''manufacture_year'', ''vehicle_type'', ''fuel_type'', ''fuel_tank_volume'',
          ''standard_fuel_consumption'', ''max_speed'', ''object_id'', ''user_id'', ''garage_id'',
          ''record_added_at''])
       [mk_rel ''objects'' ''object_id'' ''object_id'' ''left'',
        mk_rel ''users'' ''user_id'' ''user_id'' ''left'']),
    (''employees'', mk_entity ''raw_business_data'' ''employees''
       (map mk_field [''employee_id'', ''first_name'', ''last_name'', ''middle_name'', ''email'',
          ''phone_number'', ''personnel_number'', ''department_id'', ''object_id'',
          ''hardware_key'', ''driver_license_number'', ''is_deleted'', ''record_added_at''])
       [mk_rel ''departments'' ''department_id'' ''department_id'' ''left'',
        mk_rel ''objects'' ''object_id'' ''object_id'' ''left'']),
    (''departments'', mk_entity ''raw_business_data'' ''departments''
       (map mk_field [''department_id'', ''department_label'', ''user_id'', ''address'', ''latitude'',
          ''longitude'', ''record_added_at''])
       [mk_rel ''employees'' ''department_id'' ''department_id'' ''left'']),
    (''groups'', mk_entity ''raw_business_data'' ''groups''
       (map mk_field [''group_id'', ''group_label'', ''group_color'', ''client_id'',
          ''record_added_at''])
       [mk_rel ''objects'' ''group_id'' ''group_id'' ''left'']),
    (''devices'', mk_entity ''raw_business_data'' ''devices''
       (map mk_field [''device_id'', ''device_imei'', ''phone'', ''network_label'', ''signal_level'',
          ''has_roaming'', ''is_sim_blocked'', ''created_at'', ''record_added_at''])
       [mk_rel ''objects'' ''device_id'' ''device_id'' ''left'',
        mk_rel ''sensor_description'' ''device_id'' ''device_id'' ''left'']),
    (''sensor_description'', mk_entity ''raw_business_data'' ''sensor_description''
       (map mk_field [''sensor_id'', ''device_id'', ''sensor_label'', ''sensor_type'',
          ''input_label'', ''sensor_units'', ''multiplier'', ''divider'', ''record_added_at''])
       [mk_rel ''devices'' ''device_id'' ''device_id'' ''inner'']),
    (''tags'', mk_entity ''raw_business_data'' ''tags''
       (map mk_field [''tag_id'', ''tag_label'', ''color'', ''user_id'', ''record_added_at''])
       []),
    (''geofences'', mk_entity ''raw_business_data'' ''zones''
       (map mk_field [''zone_id'', ''zone_label'', ''zone_type'', ''address'', ''latitude'',
          ''longitude'', ''radius'', ''color'', ''record_added_at''])
       []),
    (''pois'', mk_entity ''raw_business_data'' ''places''
       (map mk_field [''place_id'', ''place_label'', ''address'', ''latitude'', ''longitude'',
          ''radius'', ''description'', ''external_id'', ''user_id'', ''record_added_at''])
       []),
    (''tracking_data_core'', mk_entity ''raw_telematics_data'' ''tracking_data_core''
       (map mk_field [''device_id'', ''device_time'', ''platform_time'', ''latitude'', ''longitude'',
          ''speed'', ''altitude'', ''satellites'', ''event_id'', ''record_added_at''])
       [mk_rel ''devices'' ''device_id'' ''device_id'' ''inner'']),
    (''inputs'', mk_entity ''raw_telematics_data'' ''inputs''
       (map mk_field [''device_id'', ''device_time'', ''sensor_name'', ''value'', ''event_id'',
          ''record_added_at''])
       [mk_rel ''devices'' ''device_id'' ''device_id'' ''inner'']),
    (''states'', mk_entity ''raw_telematics_data'' ''states''
       (map mk_field [''device_id'', ''device_time'', ''state_name'', ''value'', ''status'',
          ''event_id'', ''record_added_at''])
       [mk_rel ''devices'' ''device_id'' ''device_id'' ''inner''])]"

section \<open>Identifiers\<close>

text \<open>
  \<^verbatim>\<open>_sanitize_identifier\<close> accepts a name when
  \<^verbatim>\<open>re.match(r'^[a-zA-Z_][a-zA-Z0-9_]*$', name)\<close> succeeds.  In Python's \<^verbatim>\<open>re\<close>,
  \<^verbatim>\<open>$\<close> (without \<^verbatim>\<open>re.MULTILINE\<close>) matches at the end of the string and also just
  before a newline that is the last character, so the remainder after the longest run of
  identifier characters must be empty or a single newline.
\<close>

definition is_ident_start :: "char \<Rightarrow> bool" where
  "is_ident_start c =
     ((97 \<le> (of_char c :: nat) \<and> (of_char c :: nat) \<le> 122)
      \<or> (65 \<le> (of_char c :: nat) \<and> (of_char c :: nat) \<le> 90)
      \<or> c = CHR ''_'')"

definition is_ident_char :: "char \<Rightarrow> bool" where
  "is_ident_char c = (is_ident_start c \<or> is_digit c)"

definition re_match_identifier :: "string \<Rightarrow> bool" where
  "re_match_identifier s =
     (case s of
        [] \<Rightarrow> False
      | c # cs \<Rightarrow>
          is_ident_start c
          \<and> (dropWhile is_ident_char cs = [] \<or> dropWhile is_ident_char cs = [CHR 0x0A]))"

definition sanitize_identifier :: "string \<Rightarrow> error + string" where
  "sanitize_identifier n =
     (if \<not> re_match_identifier n then Inl (ValueError (''Invalid identifier: '' @ n))
      else Inr n)"

definition get_qualified_field_name :: "Entity \<Rightarrow> EntityField \<Rightarrow> string \<Rightarrow> error + string" where
  "get_qualified_field_name ent fld table_alias =
     (case sanitize_identifier table_alias of
        Inl e \<Rightarrow> Inl e
      | Inr alias \<Rightarrow>
          (case sanitize_identifier (ef_name fld) of
             Inl e \<Rightarrow> Inl e
           | Inr field_name \<Rightarrow> Inr (alias @ ''.'' @ field_name)))"

section \<open>The join path resolver (\<^verbatim>\<open>_find_join_path\<close>)\<close>

text \<open>
  A join step is \<^verbatim>\<open>(from_entity, to_entity, from_field, to_field, join_type)\<close>.  The
  resolver returns \<^verbatim>\<open>None\<close> or a list of steps.  Its four loops are the functions
  below, in the order of the source: the direct forward check, the direct reverse check
  over \<^verbatim>\<open>ENTITIES.items()\<close>, the multi-hop search through the source's own
  relationships and the multi-hop search through reverse relationships.  Every recursive
  call receives \<^verbatim>\<open>visited.copy()\<close>, so the visited set is passed by value.
\<close>

type_synonym join_step = "string \<times> string \<times> string \<times> string \<times> string"

fun direct_relationship ::
  "string \<Rightarrow> string \<Rightarrow> EntityRelationship list \<Rightarrow> join_step list option" where
  "direct_relationship from_id to_id [] = None"
| "direct_relationship from_id to_id (r # rs) =
     (if target_entity r = to_id
      then Some [(from_id, to_id, source_field r, target_field r, join_type r)]
      else direct_relationship from_id to_id rs)"

fun reverse_relationship_rels ::
  "string \<Rightarrow> string \<Rightarrow> string \<Rightarrow> EntityRelationship list \<Rightarrow> join_step list option" where
  "reverse_relationship_rels from_id to_id entity_id [] = None"
| "reverse_relationship_rels from_id to_id entity_id (r # rs) =
     (if target_entity r = from_id \<and> entity_id = to_id
      then Some [(from_id, to_id, target_field r, source_field r, join_type r)]
      else reverse_relationship_rels from_id to_id entity_id rs)"

fun reverse_relationship ::
  "string \<Rightarrow> string \<Rightarrow> string set \<Rightarrow> registry \<Rightarrow> join_step list option" where
  "reverse_relationship from_id to_id visited [] = None"
| "reverse_relationship from_id to_id visited ((entity_id, ent) # items) =
     (if entity_id \<in> visited then reverse_relationship from_id to_id visited items
      else (case reverse_relationship_rels from_id to_id entity_id (relationships ent) of
              Some p \<Rightarrow> Some p
            | None \<Rightarrow> reverse_relationship from_id to_id visited items))"

definition unvisited :: "registry \<Rightarrow> string set \<Rightarrow> nat" where
  "unvisited reg visited = length (filter (\<lambda>(k, e). k \<notin> visited) reg)"

lemma unvisited_insert:
  "map_of reg k = Some e \<Longrightarrow> k \<notin> visited \<Longrightarrow> unvisited reg (insert k visited) < unvisited reg visited"
proof -
  have le: "length (filter (\<lambda>(k', e). k' \<notin> insert k visited) xs)
              \<le> length (filter (\<lambda>(k', e). k' \<notin> visited) xs)" for xs :: registry
    by (induction xs) auto
  assume "map_of reg k = Some e" and "k \<notin> visited"
  then have "length (filter (\<lambda>(k', e). k' \<notin> insert k visited) reg)
               < length (filter (\<lambda>(k', e). k' \<notin> visited) reg)"
  proof (induction reg)
    case Nil
    then show ?case by simp
  next
    case (Cons a reg)
    show ?case
    proof (cases "fst a = k")
      case True
      with Cons.prems le [of reg] show ?thesis by (cases a) (simp add: less_Suc_eq_le)
    next
      case False
      with Cons show ?thesis by (cases a) (auto split: if_splits)
    qed
  qed
  then show ?thesis by (simp add: unvisited_def)
qed

fun items_size :: "registry \<Rightarrow> nat" where
  "items_size [] = 0"
| "items_size ((k, e) # items) = Suc (Suc (length (relationships e))) + items_size items"

function find_join_path ::
    "registry \<Rightarrow> string \<Rightarrow> string \<Rightarrow> string set \<Rightarrow> join_step list option"
  and multi_hop_direct ::
    "registry \<Rightarrow> string \<Rightarrow> string \<Rightarrow> string set \<Rightarrow> EntityRelationship list \<Rightarrow> join_step list option"
  and multi_hop_reverse ::
    "registry \<Rightarrow> string \<Rightarrow> string \<Rightarrow> string set \<Rightarrow> registry \<Rightarrow> join_step list option"
  and multi_hop_reverse_rels ::
    "registry \<Rightarrow> string \<Rightarrow> string \<Rightarrow> string set \<Rightarrow> string \<Rightarrow> EntityRelationship list
       \<Rightarrow> registry \<Rightarrow> join_step list option"
where
  "find_join_path reg from_id to_id visited =
     (if from_id = to_id then Some []
      else if from_id \<in> visited then None
      else (case get_entity reg from_id of
              None \<Rightarrow> None
            | Some from_entity \<Rightarrow>
               (case direct_relationship from_id to_id (relationships from_entity) of
                  Some p \<Rightarrow> Some p
                | None \<Rightarrow>
                   (case reverse_relationship from_id to_id (insert from_id visited) reg of
                      Some p \<Rightarrow> Some p
                    | None \<Rightarrow>
                       (case multi_hop_direct reg from_id to_id (insert from_id visited)
                               (relationships from_entity) of
                          Some p \<Rightarrow> Some p
                        | None \<Rightarrow>
                            multi_hop_reverse reg from_id to_id (insert from_id visited) reg)))))"
| "multi_hop_direct reg from_id to_id visited [] = None"
| "multi_hop_direct reg from_id to_id visited (r # rs) =
     (if target_entity r \<in> visited then multi_hop_direct reg from_id to_id visited rs
      else (case find_join_path reg (target_entity r) to_id visited of
              Some sub_path \<Rightarrow>
                Some ((from_id, target_entity r, source_field r, target_field r, join_type r)
                      # sub_path)
            | None \<Rightarrow> multi_hop_direct reg from_id to_id visited rs))"
| "multi_hop_reverse reg from_id to_id visited [] = None"
| "multi_hop_reverse reg from_id to_id visited ((entity_id, ent) # items) =
     (if entity_id \<in> visited then multi_hop_reverse reg from_id to_id visited items
      else multi_hop_reverse_rels reg from_id to_id visited entity_id (relationships ent) items)"
| "multi_hop_reverse_rels reg from_id to_id visited entity_id [] items =
     multi_hop_reverse reg from_id to_id visited items"
| "multi_hop_reverse_rels reg from_id to_id visited entity_id (r # rs) items =
     (if target_entity r = from_id
      then (case find_join_path reg entity_id to_id visited of
              Some sub_path \<Rightarrow>
                Some ((from_id, entity_id, target_field r, source_field r, join_type r)
                      # sub_path)
            | None \<Rightarrow> multi_hop_reverse_rels reg from_id to_id visited entity_id rs items)
      else multi_hop_reverse_rels reg from_id to_id visited entity_id rs items)"
  by pat_completeness auto

termination
  apply (relation "inv_image (less_than <*lex*> less_than <*lex*> less_than)
     (\<lambda>x. case x of
        Inl (Inl (reg, f, t, v)) \<Rightarrow> (unvisited reg v, 0, 0)
      | Inl (Inr (reg, f, t, v, rs)) \<Rightarrow> (unvisited reg v, 1, length rs)
      | Inr (Inl (reg, f, t, v, items)) \<Rightarrow> (unvisited reg v, 1, items_size items)
      | Inr (Inr (reg, f, t, v, eid, rs, items)) \<Rightarrow> (unvisited reg v, 1, Suc (length rs) + items_size items))")
  apply (auto simp: unvisited_insert get_entity_def)
  done

declare find_join_path.simps [simp del]

text \<open>
  The same search with a budget \<open>n\<close> for the depth of the recursion, counted as the number
  of calls of \<^verbatim>\<open>_find_join_path\<close> on the stack, the outermost call included.  The
  result is \<open>None\<close> when a call would exceed the budget, and \<open>Some\<close> of the resolver's
  result otherwise.
\<close>

function find_join_path_bounded ::
    "nat \<Rightarrow> registry \<Rightarrow> string \<Rightarrow> string \<Rightarrow> string set \<Rightarrow> join_step list option option"
  and multi_hop_direct_bounded ::
    "nat \<Rightarrow> registry \<Rightarrow> string \<Rightarrow> string \<Rightarrow> string set \<Rightarrow> EntityRelationship list
       \<Rightarrow> join_step list option option"
  and multi_hop_reverse_bounded ::
    "nat \<Rightarrow> registry \<Rightarrow> string \<Rightarrow> string \<Rightarrow> string set \<Rightarrow> registry
       \<Rightarrow> join_step list option option"
  and multi_hop_reverse_rels_bounded ::
    "nat \<Rightarrow> registry \<Rightarrow> string \<Rightarrow> string \<Rightarrow> string set \<Rightarrow> string
       \<Rightarrow> EntityRelationship list \<Rightarrow> registry \<Rightarrow> join_step list option option"
where
  "find_join_path_bounded 0 reg from_id to_id visited = None"
| "find_join_path_bounded (Suc n) reg from_id to_id visited =
     (if from_id = to_id then Some (Some [])
      else if from_id \<in> visited then Some None
      else (case get_entity reg from_id of
              None \<Rightarrow> Some None
            | Some from_entity \<Rightarrow>
               (case direct_relationship from_id to_id (relationships from_entity) of
                  Some p \<Rightarrow> Some (Some p)
                | None \<Rightarrow>
                   (case reverse_relationship from_id to_id (insert from_id visited) reg of
                      Some p \<Rightarrow> Some (Some p)
                    | None \<Rightarrow>
                       (case multi_hop_direct_bounded n reg from_id to_id (insert from_id visited)
                               (relationships from_entity) of
                          None \<Rightarrow> None
                        | Some (Some p) \<Rightarrow> Some (Some p)
                        | Some None \<Rightarrow>
                            multi_hop_reverse_bounded n reg from_id to_id
                              (insert from_id visited) reg)))))"
| "multi_hop_direct_bounded n reg from_id to_id visited [] = Some None"
| "multi_hop_direct_bounded n reg from_id to_id visited (r # rs) =
     (if target_entity r \<in> visited then multi_hop_direct_bounded n reg from_id to_id visited rs
      else (case find_join_path_bounded n reg (target_entity r) to_id visited of
              None \<Rightarrow> None
            | Some (Some sub_path) \<Rightarrow>
                Some (Some ((from_id, target_entity r, source_field r, target_field r,
                             join_type r) # sub_path))
            | Some None \<Rightarrow> multi_hop_direct_bounded n reg from_id to_id visited rs))"
| "multi_hop_reverse_bounded n reg from_id to_id visited [] = Some None"
| "multi_hop_reverse_bounded n reg from_id to_id visited ((entity_id, ent) # items) =
     (if entity_id \<in> visited then multi_hop_reverse_bounded n reg from_id to_id visited items
      else multi_hop_reverse_rels_bounded n reg from_id to_id visited entity_id
             (relationships ent) items)"
| "multi_hop_reverse_rels_bounded n reg from_id to_id visited entity_id [] items =
     multi_hop_reverse_bounded n reg from_id to_id visited items"
| "multi_hop_reverse_rels_bounded n reg from_id to_id visited entity_id (r # rs) items =
     (if target_entity r = from_id
      then (case find_join_path_bounded n reg entity_id to_id visited of
              None \<Rightarrow> None
            | Some (Some sub_path) \<Rightarrow>
                Some (Some ((from_id, entity_id, target_field r, source_field r, join_type r)
                            # sub_path))
            | Some None \<Rightarrow>
                multi_hop_reverse_rels_bounded n reg from_id to_id visited entity_id rs items)
      else multi_hop_reverse_rels_bounded n reg from_id to_id visited entity_id rs items)"
  by pat_completeness auto
termination
  by (relation "inv_image (less_than <*lex*> less_than)
     (\<lambda>x. case x of
        Inl (Inl (n, reg, f, t, v)) \<Rightarrow> (2 * n, 0)
      | Inl (Inr (n, reg, f, t, v, rs)) \<Rightarrow> (2 * n + 1, length rs)
      | Inr (Inl (n, reg, f, t, v, items)) \<Rightarrow> (2 * n + 1, items_size items)
      | Inr (Inr (n, reg, f, t, v, eid, rs, items)) \<Rightarrow>
          (2 * n + 1, Suc (length rs) + items_size items))")
    auto

declare find_join_path_bounded.simps(2) [simp del]


section \<open>Errors as values\<close>

text \<open>
  Every \<^verbatim>\<open>raise\<close> of the source is an \<open>Inl\<close>; \<open>bind_error\<close> is Python's
  propagation of an exception through the rest of the function.
\<close>

definition bind_error :: "error + 'a \<Rightarrow> ('a \<Rightarrow> error + 'b) \<Rightarrow> error + 'b" where
  "bind_error m f = (case m of Inl e \<Rightarrow> Inl e | Inr x \<Rightarrow> f x)"

section \<open>Dates and the time range resolver (\<^verbatim>\<open>_calculate_time_range\<close>)\<close>

text \<open>
  A \<^verbatim>\<open>datetime\<close> is its wall-clock reading in microseconds since
  \<^verbatim>\<open>0001-01-01T00:00:00\<close> and, when it is timezone-aware, its UTC offset in
  microseconds.  A \<^verbatim>\<open>timedelta\<close> is a number of microseconds.  The library raises
  \<^verbatim>\<open>OverflowError\<close> for a \<^verbatim>\<open>timedelta\<close> of more than 999999999 days and for a
  date outside the years 1 to 9999; both are kept.
\<close>

record datetime =
  ticks :: int
  utcoffset :: "int option"

definition us_per_day :: int where
  "us_per_day = 86400000000"

definition max_ticks :: int where
  "max_ticks = 3652059 * 86400000000 - 1"

definition timedelta_us :: "int \<Rightarrow> error + int" where
  "timedelta_us us =
     (if us div us_per_day < - 999999999 \<or> 999999999 < us div us_per_day
      then Inl (OverflowError (''days='' @ str_int (us div us_per_day)
                                @ ''; must have magnitude <= 999999999''))
      else Inr us)"

definition timedelta_hours :: "int \<Rightarrow> error + int" where
  "timedelta_hours h = timedelta_us (h * 3600000000)"

definition timedelta_days :: "int \<Rightarrow> error + int" where
  "timedelta_days d = timedelta_us (d * us_per_day)"

definition timedelta_weeks :: "int \<Rightarrow> error + int" where
  "timedelta_weeks w = timedelta_us (w * 7 * us_per_day)"

definition datetime_sub :: "datetime \<Rightarrow> int \<Rightarrow> error + datetime" where
  "datetime_sub d delta =
     (if ticks d - delta < 0 \<or> max_ticks < ticks d - delta
      then Inl (OverflowError ''date value out of range'')
      else Inr (d\<lparr>ticks := ticks d - delta\<rparr>))"

text \<open>The proleptic Gregorian calendar: year, month and day of a day number (0 is 0001-01-01).\<close>

definition days_before_month :: "int \<Rightarrow> int" where
  "days_before_month m = [0, 0, 31, 59, 90, 120, 151, 181, 212, 243, 273, 304, 334] ! nat m"

definition days_in_month :: "int \<Rightarrow> int" where
  "days_in_month m = [0, 31, 28, 31, 30, 31, 30, 31, 31, 30, 31, 30, 31] ! nat m"

definition ymd_of_day :: "int \<Rightarrow> int \<times> int \<times> int" where
  "ymd_of_day n0 =
     (let n400 = n0 div 146097; r400 = n0 mod 146097;
          n100 = r400 div 36524; r100 = r400 mod 36524;
          n4 = r100 div 1461; r4 = r100 mod 1461;
          n1 = r4 div 365; n = r4 mod 365;
          year = n400 * 400 + 1 + n100 * 100 + n4 * 4 + n1
      in if n1 = 4 \<or> n100 = 4 then (year - 1, 12, 31)
         else
           (let leap = (n1 = 3 \<and> (n4 \<noteq> 24 \<or> n100 = 3));
                month = (n + 50) div 32;
                preceding = days_before_month month + (if 2 < month \<and> leap then 1 else 0)
            in if n < preceding
               then (year, month - 1,
                     n - (preceding - (days_in_month (month - 1)
                                       + (if month - 1 = 2 \<and> leap then 1 else 0))) + 1)
               else (year, month, n - preceding + 1)))"

definition pad :: "nat \<Rightarrow> int \<Rightarrow> string" where
  "pad w i = replicate (w - length (str_nat (nat i))) CHR ''0'' @ str_nat (nat i)"

definition format_offset :: "int option \<Rightarrow> string" where
  "format_offset off =
     (case off of
        None \<Rightarrow> []
      | Some u \<Rightarrow>
          (let a = \<bar>u\<bar>;
               hh = a div 3600000000; mm = (a mod 3600000000) div 60000000;
               ss = (a mod 60000000) div 1000000; us = a mod 1000000
           in (if u < 0 then ''-'' else ''+'') @ pad 2 hh @ '':'' @ pad 2 mm
              @ (if ss \<noteq> 0 \<or> us \<noteq> 0 then '':'' @ pad 2 ss else [])
              @ (if us \<noteq> 0 then ''.'' @ pad 6 us else [])))"

definition isoformat :: "datetime \<Rightarrow> string" where
  "isoformat d =
     (let (y, m, dd) = ymd_of_day (ticks d div us_per_day);
          t = ticks d mod us_per_day;
          hh = t div 3600000000; mm = (t mod 3600000000) div 60000000;
          ss = (t mod 60000000) div 1000000; us = t mod 1000000
      in pad 4 y @ ''-'' @ pad 2 m @ ''-'' @ pad 2 dd @ ''T''
         @ pad 2 hh @ '':'' @ pad 2 mm @ '':'' @ pad 2 ss
         @ (if us \<noteq> 0 then ''.'' @ pad 6 us else [])
         @ format_offset (utcoffset d))"

text \<open>
  What the compiler takes from its environment: the reading of \<^verbatim>\<open>datetime.utcnow()\<close>
  (a naive datetime) and the library parser \<^verbatim>\<open>datetime.fromisoformat\<close>, whose accepted
  formats depend on the Python version.
\<close>

record py_env =
  utcnow :: int
  fromisoformat :: "string \<Rightarrow> error + datetime"

record TimeRange =
  tr_type :: string
  relative_value :: "int option"
  relative_unit :: "string option"
  start_date :: "string option"
  end_date :: "string option"

text \<open>\<^verbatim>\<open>s or d\<close> for an optional string: \<open>d\<close> when \<open>s\<close> is \<^verbatim>\<open>None\<close> or empty.\<close>

definition str_or :: "string option \<Rightarrow> string \<Rightarrow> string" where
  "str_or s d = (case s of None \<Rightarrow> d | Some x \<Rightarrow> if x = [] then d else x)"

definition parse_date :: "py_env \<Rightarrow> string option \<Rightarrow> error + datetime option" where
  "parse_date env d =
     (case d of
        None \<Rightarrow> Inr None
      | Some s \<Rightarrow> if s = [] then Inr None else bind_error (fromisoformat env s) (\<lambda>t. Inr (Some t)))"

definition calculate_time_range ::
  "py_env \<Rightarrow> TimeRange \<Rightarrow> error + (datetime option \<times> datetime option)" where
  "calculate_time_range env tr =
     (if tr_type tr = ''absolute''
      then bind_error (parse_date env (start_date tr)) (\<lambda>start_time.
           bind_error (parse_date env (end_date tr)) (\<lambda>end_time.
           Inr (start_time, end_time)))
      else
        (let now = \<lparr>ticks = utcnow env, utcoffset = None\<rparr>;
             v = (case relative_value tr of None \<Rightarrow> 0 | Some v \<Rightarrow> v);
             unit = str_or (relative_unit tr) ''days''
         in bind_error (timedelta_hours v) (\<lambda>hours.
            bind_error (timedelta_days v) (\<lambda>days.
            bind_error (timedelta_weeks v) (\<lambda>weeks.
            bind_error (timedelta_days (v * 30)) (\<lambda>months.
            bind_error (timedelta_days (v * 365)) (\<lambda>years.
            bind_error (timedelta_days 7) (\<lambda>fallback.
            bind_error
              (datetime_sub now
                 (if unit = ''hours'' then hours
                  else if unit = ''days'' then days
                  else if unit = ''weeks'' then weeks
                  else if unit = ''months'' then months
                  else if unit = ''years'' then years
                  else fallback))
              (\<lambda>start_time. Inr (Some start_time, Some now))))))))))"

section \<open>The report configuration\<close>

text \<open>
  The configuration records, with the attributes the compiler reads (a selected field's
  display alias, a filter's id and the report's name and description are never read).
\<close>

datatype FilterOperator =
    Op_EQUALS | Op_NOT_EQUALS | Op_CONTAINS | Op_NOT_CONTAINS | Op_STARTS_WITH | Op_ENDS_WITH
  | Op_GREATER_THAN | Op_GREATER_EQUAL | Op_LESS_THAN | Op_LESS_EQUAL | Op_BETWEEN
  | Op_IN | Op_NOT_IN | Op_IS_NULL | Op_IS_NOT_NULL

record SelectedField =
  sf_entity_id :: string
  sf_field_id :: string
  sf_aggregation :: "AggregationType option"

record FilterCondition =
  fc_entity_id :: string
  fc_field_id :: string
  fc_operator :: FilterOperator
  fc_value :: pyval
  fc_value2 :: pyval

record SortConfig =
  sc_entity_id :: string
  sc_field_id :: string
  sc_direction :: string

record ReportConfig =
  primary_entity :: string
  selected_fields :: "SelectedField list"
  filters :: "FilterCondition list"
  sorting :: "SortConfig list"
  time_range :: "TimeRange option"
  time_field :: "string option"
  time_field_entity :: "string option"
  group_by :: "SelectedField list option"
  limit :: int

section \<open>Field aliases, aggregations and the filter compiler\<close>

definition get_field_alias :: "string \<Rightarrow> string \<Rightarrow> AggregationType option \<Rightarrow> string" where
  "get_field_alias entity_id field_id aggregation =
     (case aggregation of
        Some a \<Rightarrow> aggregation_value a @ ''_'' @ entity_id @ ''_'' @ field_id
      | None \<Rightarrow> entity_id @ ''_'' @ field_id)"

fun build_aggregation :: "string \<Rightarrow> AggregationType \<Rightarrow> string" where
  "build_aggregation field_name Agg_COUNT = ''COUNT('' @ field_name @ '')''"
| "build_aggregation field_name Agg_SUM = ''SUM('' @ field_name @ '')''"
| "build_aggregation field_name Agg_AVG = ''AVG('' @ field_name @ '')''"
| "build_aggregation field_name Agg_MIN = ''MIN('' @ field_name @ '')''"
| "build_aggregation field_name Agg_MAX = ''MAX('' @ field_name @ '')''"
| "build_aggregation field_name Agg_COUNT_DISTINCT = ''COUNT(DISTINCT '' @ field_name @ '')''"

text \<open>
  The inner function \<^verbatim>\<open>param(val)\<close> appends \<open>val\<close> to the parameter list and returns
  the placeholder for the current index, which it then increments.  The index is a
  counter that starts at 1 in \<^verbatim>\<open>build_query\<close>; it is a natural number here.
\<close>

definition param :: "pyval \<Rightarrow> pyval list \<times> nat \<Rightarrow> string \<times> pyval list \<times> nat" where
  "param val st = (''$'' @ str_nat (snd st), fst st @ [val], Suc (snd st))"

fun param_list :: "pyval list \<Rightarrow> pyval list \<times> nat \<Rightarrow> string list \<times> pyval list \<times> nat" where
  "param_list [] st = ([], st)"
| "param_list (v # vs) st =
     (case param v st of
        (p, st1) \<Rightarrow> (case param_list vs st1 of (ps, st2) \<Rightarrow> (p # ps, st2)))"

definition one_param :: "string \<Rightarrow> string \<Rightarrow> pyval \<Rightarrow> pyval list \<times> nat
    \<Rightarrow> string \<times> pyval list \<times> nat" where
  "one_param field_name op val st =
     (case param val st of (p, st1) \<Rightarrow> (field_name @ op @ p, st1))"

definition build_filter_condition ::
  "Entity \<Rightarrow> EntityField \<Rightarrow> string \<Rightarrow> FilterCondition \<Rightarrow> pyval list \<Rightarrow> nat
     \<Rightarrow> error + (string \<times> pyval list \<times> nat)" where
  "build_filter_condition ent fld table_alias flt params param_idx =
     bind_error (get_qualified_field_name ent fld table_alias) (\<lambda>field_name.
       Inr (case fc_operator flt of
          Op_IS_NULL \<Rightarrow> (field_name @ '' IS NULL'', params, param_idx)
        | Op_IS_NOT_NULL \<Rightarrow> (field_name @ '' IS NOT NULL'', params, param_idx)
        | Op_EQUALS \<Rightarrow> one_param field_name '' = '' (fc_value flt) (params, param_idx)
        | Op_NOT_EQUALS \<Rightarrow> one_param field_name '' != '' (fc_value flt) (params, param_idx)
        | Op_CONTAINS \<Rightarrow>
            one_param field_name '' ILIKE ''
              (PStr (''%'' @ py_str (fc_value flt) @ ''%'')) (params, param_idx)
        | Op_NOT_CONTAINS \<Rightarrow>
            one_param field_name '' NOT ILIKE ''
              (PStr (''%'' @ py_str (fc_value flt) @ ''%'')) (params, param_idx)
        | Op_STARTS_WITH \<Rightarrow>
            one_param field_name '' ILIKE ''
              (PStr (py_str (fc_value flt) @ ''%'')) (params, param_idx)
        | Op_ENDS_WITH \<Rightarrow>
            one_param field_name '' ILIKE ''
              (PStr (''%'' @ py_str (fc_value flt))) (params, param_idx)
        | Op_GREATER_THAN \<Rightarrow> one_param field_name '' > '' (fc_value flt) (params, param_idx)
        | Op_GREATER_EQUAL \<Rightarrow> one_param field_name '' >= '' (fc_value flt) (params, param_idx)
        | Op_LESS_THAN \<Rightarrow> one_param field_name '' < '' (fc_value flt) (params, param_idx)
        | Op_LESS_EQUAL \<Rightarrow> one_param field_name '' <= '' (fc_value flt) (params, param_idx)
        | Op_BETWEEN \<Rightarrow>
            (case param (fc_value flt) (params, param_idx) of
               (p1, st1) \<Rightarrow>
                 (case param (fc_value2 flt) st1 of
                    (p2, st2) \<Rightarrow> (field_name @ '' BETWEEN '' @ p1 @ '' AND '' @ p2, st2)))
        | Op_IN \<Rightarrow>
            (case fc_value flt of
               PList vs \<Rightarrow>
                 (case param_list vs (params, param_idx) of
                    (ps, st1) \<Rightarrow> (field_name @ '' IN ('' @ join_str '', '' ps @ '')'', st1))
             | _ \<Rightarrow> one_param field_name '' = '' (fc_value flt) (params, param_idx))
        | Op_NOT_IN \<Rightarrow>
            (case fc_value flt of
               PList vs \<Rightarrow>
                 (case param_list vs (params, param_idx) of
                    (ps, st1) \<Rightarrow> (field_name @ '' NOT IN ('' @ join_str '', '' ps @ '')'', st1))
             | _ \<Rightarrow> one_param field_name '' != '' (fc_value flt) (params, param_idx))))"

section \<open>The query assembler (\<^verbatim>\<open>build_query\<close>)\<close>

text \<open>
  \<^verbatim>\<open>used_entities\<close> is an insertion-ordered dictionary from entity ids to entities:
  an association list, extended at the end by a key that is not yet present and that the
  registry knows.
\<close>

definition add_used_entity ::
  "registry \<Rightarrow> (string \<times> Entity) list \<Rightarrow> string \<Rightarrow> (string \<times> Entity) list" where
  "add_used_entity reg used entity_id =
     (if entity_id \<in> fst ` set used then used
      else (case get_entity reg entity_id of
              None \<Rightarrow> used
            | Some ent \<Rightarrow> used @ [(entity_id, ent)]))"

definition collect_used_entities ::
  "registry \<Rightarrow> ReportConfig \<Rightarrow> Entity \<Rightarrow> (string \<times> Entity) list" where
  "collect_used_entities reg config primary =
     foldl (add_used_entity reg)
       (foldl (add_used_entity reg)
          (foldl (add_used_entity reg) [(primary_entity config, primary)]
             (map sf_entity_id (selected_fields config)))
          (map fc_entity_id (filters config)))
       (map sc_entity_id (sorting config))"

definition table_aliases_of :: "(string \<times> Entity) list \<Rightarrow> (string \<times> string) list" where
  "table_aliases_of used = map (\<lambda>(entity_id, ent). (entity_id, table_name ent)) used"

text \<open>\<^verbatim>\<open>d[k]\<close> on a dictionary: \<^verbatim>\<open>KeyError\<close> when the key is missing.\<close>

definition lookup_alias :: "(string \<times> string) list \<Rightarrow> string \<Rightarrow> error + string" where
  "lookup_alias table_aliases entity_id =
     (case map_of table_aliases entity_id of
        None \<Rightarrow> Inl (KeyError entity_id)
      | Some a \<Rightarrow> Inr a)"

definition find_field :: "Entity \<Rightarrow> string \<Rightarrow> EntityField option" where
  "find_field ent field_id = List.find (\<lambda>f. ef_id f = field_id) (entity_fields ent)"

definition has_aggregation :: "ReportConfig \<Rightarrow> bool" where
  "has_aggregation config = list_ex (\<lambda>f. sf_aggregation f \<noteq> None) (selected_fields config)"

definition is_in_group_by :: "ReportConfig \<Rightarrow> SelectedField \<Rightarrow> bool" where
  "is_in_group_by config sel_field =
     (case group_by config of
        None \<Rightarrow> False
      | Some gs \<Rightarrow>
          list_ex (\<lambda>g. sf_entity_id g = sf_entity_id sel_field
                      \<and> sf_field_id g = sf_field_id sel_field) gs)"

text \<open>
  The SELECT loop, with its two accumulators \<^verbatim>\<open>select_parts\<close> and
  \<^verbatim>\<open>group_by_fields\<close>.  A selected field whose entity or field does not resolve is
  skipped (\<^verbatim>\<open>continue\<close>).  The test \<^verbatim>\<open>has_aggregation and config.group_by\<close> is
  false for an absent and for an empty group-by list, for which \<open>is_in_group_by\<close> is
  false as well.
\<close>

fun build_select ::
  "ReportConfig \<Rightarrow> (string \<times> Entity) list \<Rightarrow> (string \<times> string) list \<Rightarrow> SelectedField list
     \<Rightarrow> string list \<Rightarrow> string list \<Rightarrow> error + (string list \<times> string list)" where
  "build_select config used table_aliases [] select_parts group_by_fields =
     Inr (select_parts, group_by_fields)"
| "build_select config used table_aliases (sel_field # rest) select_parts group_by_fields =
     (case map_of used (sf_entity_id sel_field) of
        None \<Rightarrow> build_select config used table_aliases rest select_parts group_by_fields
      | Some ent \<Rightarrow>
          (case find_field ent (sf_field_id sel_field) of
             None \<Rightarrow> build_select config used table_aliases rest select_parts group_by_fields
           | Some fld \<Rightarrow>
               bind_error (lookup_alias table_aliases (sf_entity_id sel_field)) (\<lambda>table_alias.
               bind_error (get_qualified_field_name ent fld table_alias) (\<lambda>field_name.
                 build_select config used table_aliases rest
                   (select_parts
                    @ [(case sf_aggregation sel_field of
                          Some a \<Rightarrow> build_aggregation field_name a
                        | None \<Rightarrow> field_name)
                       @ '' AS ''
                       @ get_field_alias (sf_entity_id sel_field) (sf_field_id sel_field)
                           (sf_aggregation sel_field)])
                   (if sf_aggregation sel_field = None \<and> has_aggregation config
                       \<and> is_in_group_by config sel_field
                    then group_by_fields @ [field_name] else group_by_fields)))))"

text \<open>The JOIN clauses of one resolved path, skipping targets that are joined already.\<close>

definition join_type_sql :: "string \<Rightarrow> string" where
  "join_type_sql jt =
     (if upper jt = ''INNER'' \<or> upper jt = ''LEFT'' \<or> upper jt = ''RIGHT''
      then upper jt else ''LEFT'')"

fun build_path_joins ::
  "registry \<Rightarrow> join_step list \<Rightarrow> string list \<Rightarrow> string set
     \<Rightarrow> error + (string list \<times> string set)" where
  "build_path_joins reg [] join_clauses joined_entities = Inr (join_clauses, joined_entities)"
| "build_path_joins reg ((from_ent_id, to_ent_id, from_field, to_field, jt) # rest)
       join_clauses joined_entities =
     (if to_ent_id \<in> joined_entities
      then build_path_joins reg rest join_clauses joined_entities
      else (case get_entity reg to_ent_id of
              None \<Rightarrow> build_path_joins reg rest join_clauses joined_entities
            | Some to_entity \<Rightarrow>
               (case get_entity reg from_ent_id of
                  None \<Rightarrow> build_path_joins reg rest join_clauses joined_entities
                | Some from_entity \<Rightarrow>
                    bind_error (sanitize_identifier (schema_name to_entity)) (\<lambda>target_schema.
                    bind_error (sanitize_identifier (table_name to_entity)) (\<lambda>target_table.
                    bind_error (sanitize_identifier (table_name from_entity)) (\<lambda>source_table.
                    bind_error (sanitize_identifier from_field) (\<lambda>source_fld.
                    bind_error (sanitize_identifier to_field) (\<lambda>target_fld.
                      build_path_joins reg rest
                        (join_clauses
                         @ [join_type_sql jt @ '' JOIN '' @ target_schema @ ''.'' @ target_table
                            @ '' ON '' @ source_table @ ''.'' @ source_fld
                            @ '' = '' @ target_table @ ''.'' @ target_fld])
                        (insert to_ent_id joined_entities)))))))))"

definition cannot_join :: "string \<Rightarrow> string \<Rightarrow> error" where
  "cannot_join entity_id primary =
     ValueError (''Cannot join entity '' @ [CHR 0x27] @ entity_id @ [CHR 0x27]
       @ '' to primary entity '' @ [CHR 0x27] @ primary @ [CHR 0x27]
       @ ''. No relationship path found. Please select fields from related entities only.'')"

fun build_joins ::
  "registry \<Rightarrow> string \<Rightarrow> (string \<times> Entity) list \<Rightarrow> string list \<Rightarrow> string set
     \<Rightarrow> error + string list" where
  "build_joins reg primary [] join_clauses joined_entities = Inr join_clauses"
| "build_joins reg primary ((entity_id, ent) # rest) join_clauses joined_entities =
     (if entity_id = primary then build_joins reg primary rest join_clauses joined_entities
      else (case find_join_path reg primary entity_id {} of
              None \<Rightarrow> Inl (cannot_join entity_id primary)
            | Some join_path \<Rightarrow>
                bind_error (build_path_joins reg join_path join_clauses joined_entities)
                  (\<lambda>(join_clauses', joined_entities').
                     build_joins reg primary rest join_clauses' joined_entities')))"

text \<open>The WHERE loop over the filters, threading the parameter list and its index.\<close>

fun build_where ::
  "(string \<times> Entity) list \<Rightarrow> (string \<times> string) list \<Rightarrow> FilterCondition list
     \<Rightarrow> string list \<Rightarrow> pyval list \<Rightarrow> nat \<Rightarrow> error + (string list \<times> pyval list \<times> nat)" where
  "build_where used table_aliases [] where_conditions params param_idx =
     Inr (where_conditions, params, param_idx)"
| "build_where used table_aliases (flt # rest) where_conditions params param_idx =
     (case map_of used (fc_entity_id flt) of
        None \<Rightarrow> build_where used table_aliases rest where_conditions params param_idx
      | Some ent \<Rightarrow>
          (case find_field ent (fc_field_id flt) of
             None \<Rightarrow> build_where used table_aliases rest where_conditions params param_idx
           | Some fld \<Rightarrow>
               bind_error (lookup_alias table_aliases (fc_entity_id flt)) (\<lambda>table_alias.
               bind_error (build_filter_condition ent fld table_alias flt params param_idx)
                 (\<lambda>(condition, params', param_idx').
                    build_where used table_aliases rest (where_conditions @ [condition])
                      params' param_idx'))))"

text \<open>
  The time range filter.  The scoped entity is looked up in the registry, not in
  \<^verbatim>\<open>used_entities\<close>; only \<^verbatim>\<open>table_aliases\<close> is extended when the entity is new.
  The result carries the extended aliases, the WHERE conditions, the parameters and the
  index.
\<close>

definition time_bound ::
  "string \<Rightarrow> string \<Rightarrow> datetime option \<Rightarrow> string list \<times> pyval list \<times> nat
     \<Rightarrow> string list \<times> pyval list \<times> nat" where
  "time_bound time_field_name op bound st =
     (case bound of
        None \<Rightarrow> st
      | Some t \<Rightarrow>
          (case st of
             (where_conditions, params, param_idx) \<Rightarrow>
               (where_conditions @ [time_field_name @ op @ ''$'' @ str_nat param_idx],
                params @ [PStr (isoformat t)], Suc param_idx)))"

definition build_time_filter ::
  "registry \<Rightarrow> py_env \<Rightarrow> ReportConfig \<Rightarrow> (string \<times> string) list
     \<Rightarrow> string list \<times> pyval list \<times> nat
     \<Rightarrow> error + ((string \<times> string) list \<times> string list \<times> pyval list \<times> nat)" where
  "build_time_filter reg env config table_aliases st =
     (case time_range config of
        None \<Rightarrow> Inr (table_aliases, st)
      | Some tr \<Rightarrow>
          if str_or (time_field config) [] = [] then Inr (table_aliases, st)
          else
            (case get_entity reg (str_or (time_field_entity config) (primary_entity config)) of
               None \<Rightarrow> Inr (table_aliases, st)
             | Some time_entity \<Rightarrow>
                 (case find_field time_entity (str_or (time_field config) []) of
                    None \<Rightarrow> Inr (table_aliases, st)
                  | Some time_fld \<Rightarrow>
                      (let time_entity_id =
                             str_or (time_field_entity config) (primary_entity config);
                           table_aliases' =
                             (if time_entity_id \<in> fst ` set table_aliases then table_aliases
                              else table_aliases @ [(time_entity_id, table_name time_entity)])
                       in bind_error (calculate_time_range env tr) (\<lambda>(start_time, end_time).
                          bind_error (lookup_alias table_aliases' time_entity_id) (\<lambda>table_alias.
                          bind_error (get_qualified_field_name time_entity time_fld table_alias)
                            (\<lambda>time_field_name.
                               Inr (table_aliases',
                                    time_bound time_field_name '' <= '' end_time
                                      (time_bound time_field_name '' >= '' start_time
                                         st)))))))))"

fun build_order ::
  "(string \<times> Entity) list \<Rightarrow> (string \<times> string) list \<Rightarrow> SortConfig list \<Rightarrow> string list
     \<Rightarrow> error + string list" where
  "build_order used table_aliases [] order_parts = Inr order_parts"
| "build_order used table_aliases (srt # rest) order_parts =
     (case map_of used (sc_entity_id srt) of
        None \<Rightarrow> build_order used table_aliases rest order_parts
      | Some ent \<Rightarrow>
          (case find_field ent (sc_field_id srt) of
             None \<Rightarrow> build_order used table_aliases rest order_parts
           | Some fld \<Rightarrow>
               bind_error (lookup_alias table_aliases (sc_entity_id srt)) (\<lambda>table_alias.
               bind_error (get_qualified_field_name ent fld table_alias) (\<lambda>field_name.
                 build_order used table_aliases rest
                   (order_parts
                    @ [field_name @ '' ''
                       @ (if lower (sc_direction srt) = ''desc'' then ''DESC'' else ''ASC'')])))))"

text \<open>
  The clauses in their fixed order (\<^verbatim>\<open>sql_parts\<close>) and the parameter list;
  \<^verbatim>\<open>build_query\<close> joins the clauses with line breaks.
\<close>

definition sql_parts ::
  "string list \<Rightarrow> string \<Rightarrow> string list \<Rightarrow> string list \<Rightarrow> string list \<Rightarrow> string list \<Rightarrow> int
     \<Rightarrow> string list" where
  "sql_parts select_parts from_clause join_clauses where_conditions group_by_fields
       order_parts lim =
     [''SELECT '' @ join_str '', '' select_parts, ''FROM '' @ from_clause]
     @ join_clauses
     @ (if where_conditions \<noteq> [] then [''WHERE '' @ join_str '' AND '' where_conditions] else [])
     @ (if group_by_fields \<noteq> [] then [''GROUP BY '' @ join_str '', '' group_by_fields] else [])
     @ (if order_parts \<noteq> [] then [''ORDER BY '' @ join_str '', '' order_parts] else [])
     @ [''LIMIT '' @ str_int (min lim 10000)]"

definition build_clauses ::
  "registry \<Rightarrow> py_env \<Rightarrow> ReportConfig \<Rightarrow> error + (string list \<times> pyval list)" where
  "build_clauses reg env config =
     (case get_entity reg (primary_entity config) of
        None \<Rightarrow> Inl (ValueError (''Unknown entity: '' @ primary_entity config))
      | Some primary \<Rightarrow>
          (let used = collect_used_entities reg config primary;
               table_aliases = table_aliases_of used
           in bind_error (build_select config used table_aliases (selected_fields config) [] [])
                (\<lambda>(select_parts, group_by_fields).
              if select_parts = [] then Inl (ValueError ''No valid fields selected'')
              else
              bind_error (sanitize_identifier (schema_name primary)) (\<lambda>schema.
              bind_error (sanitize_identifier (table_name primary)) (\<lambda>table.
              bind_error (build_joins reg (primary_entity config) used []
                            {primary_entity config}) (\<lambda>join_clauses.
              bind_error (build_where used table_aliases (filters config) [] [] 1) (\<lambda>st.
              bind_error (build_time_filter reg env config table_aliases st)
                (\<lambda>(table_aliases', where_conditions, params, param_idx).
              bind_error (build_order used table_aliases' (sorting config) []) (\<lambda>order_parts.
                Inr (sql_parts select_parts (schema @ ''.'' @ table) join_clauses
                       where_conditions group_by_fields order_parts (limit config),
                     params))))))))))"

definition build_query ::
  "registry \<Rightarrow> py_env \<Rightarrow> ReportConfig \<Rightarrow> error + (string \<times> pyval list)" where
  "build_query reg env config =
     bind_error (build_clauses reg env config) (\<lambda>(parts, params).
       Inr (join_str [CHR 0x0A] parts, params))"

section \<open>The preview (\<^verbatim>\<open>generate_preview_sql\<close>)\<close>

text \<open>
  The loop \<^verbatim>\<open>for i, param in enumerate(params, 1)\<close>: one \<^verbatim>\<open>str.replace\<close> of the text
  \<^verbatim>\<open>$i\<close> per parameter, in order, each on the result of the one before.
\<close>

definition render_param :: "pyval \<Rightarrow> string" where
  "render_param p = (case p of PStr s \<Rightarrow> [CHR 0x27] @ s @ [CHR 0x27] | _ \<Rightarrow> py_str p)"

fun replace_params :: "string \<Rightarrow> pyval list \<Rightarrow> nat \<Rightarrow> string" where
  "replace_params preview_sql [] i = preview_sql"
| "replace_params preview_sql (p # ps) i =
     replace_params (replace_str (''$'' @ str_nat i) (render_param p) preview_sql) ps (Suc i)"

definition generate_preview_sql :: "registry \<Rightarrow> py_env \<Rightarrow> ReportConfig \<Rightarrow> error + string" where
  "generate_preview_sql reg env config =
     bind_error (build_query reg env config) (\<lambda>(sql, params).
       Inr (replace_params sql params 1))"

section \<open>Notions used to state the properties of the resolver\<close>

text \<open>
  The candidate steps of the resolver, as lists in the order in which the source tries
  them: the forward steps along the relationships the source entity declares, and the
  reverse steps along relationships that registered, unvisited entities declare towards
  the source, in registry order.  \<open>first_hop\<close> is the first candidate from whose target
  the resolver finds a path, followed by that path.
\<close>

definition fwd_step :: "string \<Rightarrow> EntityRelationship \<Rightarrow> join_step" where
  "fwd_step from_id r = (from_id, target_entity r, source_field r, target_field r, join_type r)"

definition rev_step :: "string \<Rightarrow> string \<Rightarrow> EntityRelationship \<Rightarrow> join_step" where
  "rev_step from_id entity_id r =
     (from_id, entity_id, target_field r, source_field r, join_type r)"

definition step_to :: "join_step \<Rightarrow> string" where
  "step_to s = fst (snd s)"

definition forward_steps :: "string \<Rightarrow> Entity \<Rightarrow> join_step list" where
  "forward_steps from_id from_entity = map (fwd_step from_id) (relationships from_entity)"

definition reverse_steps :: "registry \<Rightarrow> string \<Rightarrow> string set \<Rightarrow> join_step list" where
  "reverse_steps reg from_id visited =
     concat (map (\<lambda>(k, e). if k \<in> visited then []
                           else map (rev_step from_id k)
                                  (filter (\<lambda>r. target_entity r = from_id) (relationships e)))
                 reg)"

definition first_hop ::
  "registry \<Rightarrow> string \<Rightarrow> string set \<Rightarrow> join_step list \<Rightarrow> join_step list option" where
  "first_hop reg to_id visited steps =
     (case List.find (\<lambda>s. find_join_path reg (step_to s) to_id visited \<noteq> None) steps of
        None \<Rightarrow> None
      | Some s \<Rightarrow> Some (s # the (find_join_path reg (step_to s) to_id visited)))"

text \<open>
  The relationship graph read in both directions: \<open>forward_edge\<close> follows a declared
  relationship, \<open>reverse_edge\<close> goes against one.  A \<open>hop\<close> leaves a registered entity
  and stays outside the visited set.
\<close>

definition forward_edge :: "registry \<Rightarrow> string \<Rightarrow> string \<Rightarrow> bool" where
  "forward_edge reg x y =
     (case get_entity reg x of
        None \<Rightarrow> False
      | Some e \<Rightarrow> list_ex (\<lambda>r. target_entity r = y) (relationships e))"

definition reverse_edge :: "registry \<Rightarrow> string \<Rightarrow> string \<Rightarrow> bool" where
  "reverse_edge reg x y =
     list_ex (\<lambda>(k, e). k = y \<and> list_ex (\<lambda>r. target_entity r = x) (relationships e)) reg"

definition hop :: "registry \<Rightarrow> string set \<Rightarrow> string \<Rightarrow> string \<Rightarrow> bool" where
  "hop reg visited x y =
     (x \<notin> visited \<and> y \<notin> visited \<and> get_entity reg x \<noteq> None
      \<and> (forward_edge reg x y \<or> reverse_edge reg x y))"


text \<open>
  Concrete inputs for the instances and counterexamples below: a clock reading
  (2025-11-06T01:02:03.000004), a parser that rejects every string (as the library does
  for a string that is not an ISO date), and a configuration with nothing but a primary
  entity and selected fields.
\<close>

definition no_parser :: "string \<Rightarrow> error + datetime" where
  "no_parser s = Inl (ValueError (''Invalid isoformat string: '' @ repr_str s))"

definition example_env :: py_env where
  "example_env = \<lparr>utcnow = 63897987723000004, fromisoformat = no_parser\<rparr>"

definition select_field :: "string \<Rightarrow> string \<Rightarrow> AggregationType option \<Rightarrow> SelectedField" where
  "select_field e f a = \<lparr>sf_entity_id = e, sf_field_id = f, sf_aggregation = a\<rparr>"

definition simple_config :: "string \<Rightarrow> SelectedField list \<Rightarrow> ReportConfig" where
  "simple_config p fs =
     \<lparr>primary_entity = p, selected_fields = fs, filters = [], sorting = [],
      time_range = None, time_field = None, time_field_entity = None, group_by = None,
      limit = 1000\<rparr>"

text \<open>
  The delta of a relative time range, for a count \<open>v\<close> and a unit: \<open>v\<close> hours, days or
  weeks, \<open>30 v\<close> days for months, \<open>365 v\<close> days for years; an absent or empty unit is
  read as days; any other unit gives 7 days.  In microseconds.
\<close>

definition relative_delta :: "int \<Rightarrow> string option \<Rightarrow> int" where
  "relative_delta v unit =
     (if str_or unit ''days'' = ''hours'' then v * 3600000000
      else if str_or unit ''days'' = ''days'' then v * 86400000000
      else if str_or unit ''days'' = ''weeks'' then v * 7 * 86400000000
      else if str_or unit ''days'' = ''months'' then v * 30 * 86400000000
      else if str_or unit ''days'' = ''years'' then v * 365 * 86400000000
      else 7 * 86400000000)"

definition relative_count :: "TimeRange \<Rightarrow> int" where
  "relative_count tr = (case relative_value tr of None \<Rightarrow> 0 | Some v \<Rightarrow> v)"

text \<open>
  A reference resolves when its entity is registered and declares the field.
  \<open>used_ok\<close> is the invariant of \<^verbatim>\<open>used_entities\<close>: every entry is the registry's
  entity of that id.
\<close>

definition resolves :: "registry \<Rightarrow> string \<Rightarrow> string \<Rightarrow> bool" where
  "resolves reg entity_id field_id =
     (case get_entity reg entity_id of
        None \<Rightarrow> False
      | Some ent \<Rightarrow> find_field ent field_id \<noteq> None)"

definition used_ok :: "registry \<Rightarrow> (string \<times> Entity) list \<Rightarrow> bool" where
  "used_ok reg used = (\<forall>k e. map_of used k = Some e \<longrightarrow> get_entity reg k = Some e)"

text \<open>
  A configuration with one resolvable selected field and, beside it, references to an
  undeclared field and to an unregistered entity among the selected fields, the filters
  and the sort specs.
\<close>

definition unresolved_config :: ReportConfig where
  "unresolved_config =
     (simple_config ''objects''
        [select_field ''objects'' ''object_id'' None,
         select_field ''objects'' ''no_such_field'' None,
         select_field ''no_such_entity'' ''object_id'' None])
     \<lparr>filters := [\<lparr>fc_entity_id = ''objects'', fc_field_id = ''no_such_field'',
                    fc_operator = Op_EQUALS, fc_value = PInt 1, fc_value2 = PNone\<rparr>],
      sorting := [\<lparr>sc_entity_id = ''no_such_entity'', sc_field_id = ''object_id'',
                    sc_direction = ''asc''\<rparr>]\<rparr>"

text \<open>
  An entity takes part in a relationship when it is registered with a relationship of its
  own or some registered entity declares a relationship towards it; \<open>active\<close> counts the
  registry entries outside the visited set that do.
\<close>

definition participates :: "registry \<Rightarrow> string \<Rightarrow> bool" where
  "participates reg k =
     ((case get_entity reg k of None \<Rightarrow> False | Some e \<Rightarrow> relationships e \<noteq> [])
      \<or> list_ex (\<lambda>(k', e). list_ex (\<lambda>r. target_entity r = k) (relationships e)) reg)"

definition active :: "registry \<Rightarrow> string set \<Rightarrow> nat" where
  "active reg visited = length (filter (\<lambda>(k, e). k \<notin> visited \<and> participates reg k) reg)"

text \<open>
  A reference is droppable when it does not resolve and its entity is unregistered or is
  the primary entity (so that dropping the reference leaves \<^verbatim>\<open>used_entities\<close> as it
  is); \<open>without_droppable\<close> removes the droppable filters and sort specs and the droppable
  selected fields that carry no aggregation.  \<open>skipped\<close> is the test by which the three
  loops \<^verbatim>\<open>continue\<close>.
\<close>

definition droppable :: "registry \<Rightarrow> ReportConfig \<Rightarrow> string \<Rightarrow> string \<Rightarrow> bool" where
  "droppable reg config entity_id field_id =
     (\<not> resolves reg entity_id field_id
      \<and> (get_entity reg entity_id = None \<or> entity_id = primary_entity config))"

definition without_droppable :: "registry \<Rightarrow> ReportConfig \<Rightarrow> ReportConfig" where
  "without_droppable reg config =
     config\<lparr>selected_fields :=
              filter (\<lambda>s. \<not> (droppable reg config (sf_entity_id s) (sf_field_id s)
                             \<and> sf_aggregation s = None))
                (selected_fields config),
            filters :=
              filter (\<lambda>f. \<not> droppable reg config (fc_entity_id f) (fc_field_id f))
                (filters config),
            sorting :=
              filter (\<lambda>s. \<not> droppable reg config (sc_entity_id s) (sc_field_id s))
                (sorting config)\<rparr>"

definition skipped :: "(string \<times> Entity) list \<Rightarrow> string \<Rightarrow> string \<Rightarrow> bool" where
  "skipped used entity_id field_id =
     (case map_of used entity_id of
        None \<Rightarrow> True
      | Some ent \<Rightarrow> find_field ent field_id = None)"

text \<open>
  The GROUP BY terms as the amended claim C6 describes them: one term \<^verbatim>\<open>alias.field\<close>
  for each selected field, in order, that resolves, carries no aggregation while some
  selected field does, and is listed by (entity id, field id) in the explicit group-by
  list.  \<open>starts_with\<close> is \<^verbatim>\<open>str.startswith\<close>.
\<close>

definition group_by_terms :: "registry \<Rightarrow> ReportConfig \<Rightarrow> string list" where
  "group_by_terms reg config =
     concat (map (\<lambda>f. case get_entity reg (sf_entity_id f) of
                         None \<Rightarrow> []
                       | Some ent \<Rightarrow>
                           (case find_field ent (sf_field_id f) of
                              None \<Rightarrow> []
                            | Some fld \<Rightarrow>
                                if sf_aggregation f = None \<and> has_aggregation config
                                   \<and> is_in_group_by config f
                                then [table_name ent @ ''.'' @ ef_name fld] else []))
                 (selected_fields config))"

definition starts_with :: "string \<Rightarrow> string \<Rightarrow> bool" where
  "starts_with p s = (take (length p) s = p)"

text \<open>The shape the source gives every JOIN clause, from identifiers that passed the check.\<close>

definition join_clause :: "string \<Rightarrow> bool" where
  "join_clause c =
     (\<exists>jt a b c' d e.
        c = join_type_sql jt @ '' JOIN '' @ a @ ''.'' @ b @ '' ON '' @ c' @ ''.'' @ d
              @ '' = '' @ b @ ''.'' @ e
        \<and> re_match_identifier a \<and> re_match_identifier b \<and> re_match_identifier c'
        \<and> re_match_identifier d \<and> re_match_identifier e)"

text \<open>
  Two configurations that select \<^verbatim>\<open>MAX(max_speed)\<close> beside a plain field listed in the
  group-by list: a declared field, and an undeclared one.
\<close>

definition group_by_config :: ReportConfig where
  "group_by_config =
     (simple_config ''vehicles''
        [select_field ''vehicles'' ''vehicle_label'' None,
         select_field ''vehicles'' ''max_speed'' (Some Agg_MAX)])
     \<lparr>group_by := Some [select_field ''vehicles'' ''vehicle_label'' None]\<rparr>"

definition group_by_unresolved_config :: ReportConfig where
  "group_by_unresolved_config =
     (simple_config ''vehicles''
        [select_field ''vehicles'' ''max_speed'' (Some Agg_MAX),
         select_field ''vehicles'' ''no_such_field'' None])
     \<lparr>group_by := Some [select_field ''vehicles'' ''no_such_field'' None]\<rparr>"

text \<open>
  A configuration with a relative time range: the vehicles added in the last seven days.
\<close>

definition clock_config :: ReportConfig where
  "clock_config =
     (simple_config ''vehicles'' [select_field ''vehicles'' ''vehicle_label'' None])
     \<lparr>time_range := Some \<lparr>tr_type = ''relative'', relative_value = Some 7,
                            relative_unit = Some ''days'', start_date = None, end_date = None\<rparr>,
      time_field := Some ''record_added_at''\<rparr>"

section \<open>Properties of the join path resolver\<close>

lemma step_to_simps [simp]:
  "step_to (fwd_step f r) = target_entity r" "step_to (rev_step f k r) = k"
  by (simp_all add: step_to_def fwd_step_def rev_step_def)

lemma direct_relationship_find:
  "direct_relationship f t rs
     = map_option (\<lambda>s. [s]) (List.find (\<lambda>s. step_to s = t) (map (fwd_step f) rs))"
  by (induction rs) (simp_all add: fwd_step_def step_to_def)

lemma reverse_relationship_rels_find:
  "reverse_relationship_rels f t k rs
     = map_option (\<lambda>s. [s])
         (List.find (\<lambda>s. step_to s = t)
            (map (rev_step f k) (filter (\<lambda>r. target_entity r = f) rs)))"
  by (induction rs) (simp_all add: rev_step_def step_to_def)

lemma find_append:
  "List.find P (xs @ ys) = (case List.find P xs of Some x \<Rightarrow> Some x | None \<Rightarrow> List.find P ys)"
  by (induction xs) auto

lemma reverse_steps_Nil [simp]: "reverse_steps [] f V = []"
  by (simp add: reverse_steps_def)

lemma reverse_steps_Cons:
  "reverse_steps ((k, e) # items) f V
     = (if k \<in> V then []
        else map (rev_step f k) (filter (\<lambda>r. target_entity r = f) (relationships e)))
       @ reverse_steps items f V"
  by (simp add: reverse_steps_def)

lemma reverse_relationship_find:
  "reverse_relationship f t V items
     = map_option (\<lambda>s. [s]) (List.find (\<lambda>s. step_to s = t) (reverse_steps items f V))"
proof (induction items)
  case Nil
  show ?case by simp
next
  case (Cons a items)
  obtain k e where a: "a = (k, e)" by (cases a)
  show ?case
    unfolding a using Cons.IH
    by (simp add: reverse_steps_Cons find_append reverse_relationship_rels_find
          split: option.splits)
qed

lemma first_hop_Nil [simp]: "first_hop reg t V [] = None"
  by (simp add: first_hop_def)

lemma first_hop_Cons:
  "first_hop reg t V (s # steps)
     = (case find_join_path reg (step_to s) t V of
          Some sub \<Rightarrow> Some (s # sub)
        | None \<Rightarrow> first_hop reg t V steps)"
  by (cases "find_join_path reg (step_to s) t V") (simp_all add: first_hop_def)

lemma first_hop_append:
  "first_hop reg t V (xs @ ys)
     = (case first_hop reg t V xs of Some p \<Rightarrow> Some p | None \<Rightarrow> first_hop reg t V ys)"
  by (induction xs) (simp_all add: first_hop_Cons split: option.splits)

lemma multi_hop_direct_first_hop:
  "multi_hop_direct reg f t V rs
     = first_hop reg t V (filter (\<lambda>s. step_to s \<notin> V) (map (fwd_step f) rs))"
proof (induction rs)
  case Nil
  show ?case by simp
next
  case (Cons r rs)
  have "(f, target_entity r, source_field r, target_field r, join_type r) = fwd_step f r"
    by (simp add: fwd_step_def)
  with Cons show ?case
    by (simp add: first_hop_Cons split: option.splits)
qed

lemma multi_hop_reverse_rels_first_hop:
  "multi_hop_reverse_rels reg f t V k rs items
     = (case first_hop reg t V (map (rev_step f k) (filter (\<lambda>r. target_entity r = f) rs)) of
          Some p \<Rightarrow> Some p
        | None \<Rightarrow> multi_hop_reverse reg f t V items)"
proof (induction rs)
  case Nil
  show ?case by simp
next
  case (Cons r rs)
  have "(f, k, target_field r, source_field r, join_type r) = rev_step f k r"
    by (simp add: rev_step_def)
  with Cons show ?case
    by (simp add: first_hop_Cons split: option.splits)
qed

lemma multi_hop_reverse_first_hop:
  "multi_hop_reverse reg f t V items = first_hop reg t V (reverse_steps items f V)"
proof (induction items)
  case Nil
  show ?case by simp
next
  case (Cons a items)
  obtain k e where a: "a = (k, e)" by (cases a)
  show ?case
    unfolding a using Cons.IH
    by (simp add: reverse_steps_Cons first_hop_append multi_hop_reverse_rels_first_hop
          split: option.splits)
qed

lemma find_join_path_priority:
  "find_join_path reg from_id to_id visited =
     (if from_id = to_id then Some []
      else if from_id \<in> visited then None
      else (case get_entity reg from_id of
              None \<Rightarrow> None
            | Some from_entity \<Rightarrow>
               (case List.find (\<lambda>s. step_to s = to_id) (forward_steps from_id from_entity) of
                  Some s \<Rightarrow> Some [s]
                | None \<Rightarrow>
                   (case List.find (\<lambda>s. step_to s = to_id)
                           (reverse_steps reg from_id (insert from_id visited)) of
                      Some s \<Rightarrow> Some [s]
                    | None \<Rightarrow>
                        first_hop reg to_id (insert from_id visited)
                          (filter (\<lambda>s. step_to s \<notin> insert from_id visited)
                                  (forward_steps from_id from_entity)
                           @ reverse_steps reg from_id (insert from_id visited))))))"
  by (subst find_join_path.simps)
     (simp add: direct_relationship_find reverse_relationship_find
        multi_hop_direct_first_hop multi_hop_reverse_first_hop first_hop_append forward_steps_def
      split: option.splits)

lemma first_hop_eq_None:
  "first_hop reg t V steps = None
     \<longleftrightarrow> (\<forall>s \<in> set steps. find_join_path reg (step_to s) t V = None)"
proof (induction steps)
  case Nil
  show ?case by simp
next
  case (Cons s steps)
  then show ?case
    by (cases "find_join_path reg (step_to s) t V") (simp_all add: first_hop_Cons)
qed

lemma forward_edge_step:
  "get_entity reg x = Some e \<Longrightarrow> forward_edge reg x y
     \<Longrightarrow> \<exists>s \<in> set (forward_steps x e). step_to s = y"
  by (simp add: forward_edge_def forward_steps_def list_ex_iff)

lemma reverse_edge_step:
  assumes "reverse_edge reg x y" and "y \<notin> V"
  shows "\<exists>s \<in> set (reverse_steps reg x V). step_to s = y"
proof -
  from assms(1) obtain e r where e: "(y, e) \<in> set reg" and r: "r \<in> set (relationships e)"
      and t: "target_entity r = x"
    by (auto simp: reverse_edge_def list_ex_iff)
  from e assms(2) r t have "rev_step x y r \<in> set (reverse_steps reg x V)"
    by (induction reg) (auto simp: reverse_steps_Cons)
  then show ?thesis by (rule bexI [rotated]) simp
qed

lemma hop_blocked:
  assumes "(hop reg V)\<^sup>*\<^sup>* x y" and "x \<in> V"
  shows "x = y"
  using assms by (cases rule: converse_rtranclpE) (auto simp: hop_def)

lemma last_visit:
  assumes "(hop reg V)\<^sup>*\<^sup>* x b" and ab: "a \<noteq> b"
  shows "(hop reg (insert a V))\<^sup>*\<^sup>* x b
         \<or> (\<exists>c. hop reg V a c \<and> (hop reg (insert a V))\<^sup>*\<^sup>* c b)"
  using assms(1)
proof (induction rule: converse_rtranclp_induct)
  case base
  show ?case by simp
next
  case (step x y)
  from step.IH show ?case
  proof
    assume avoid: "(hop reg (insert a V))\<^sup>*\<^sup>* y b"
    show ?thesis
    proof (cases "x = a")
      case True
      with step.hyps(1) avoid show ?thesis by blast
    next
      case xa: False
      have ya: "y \<noteq> a"
      proof
        assume "y = a"
        with avoid have "(hop reg (insert a V))\<^sup>*\<^sup>* a b" by simp
        then have "a = b" by (rule hop_blocked) simp
        with ab show False by simp
      qed
      with xa step.hyps(1) have "hop reg (insert a V) x y" by (simp add: hop_def)
      then have "(hop reg (insert a V))\<^sup>*\<^sup>* x b"
        using avoid by (rule converse_rtranclp_into_rtranclp)
      then show ?thesis by simp
    qed
  next
    assume "\<exists>c. hop reg V a c \<and> (hop reg (insert a V))\<^sup>*\<^sup>* c b"
    then show ?thesis by blast
  qed
qed

lemma find_join_path_complete:
  "(hop reg visited)\<^sup>*\<^sup>* from_id to_id \<Longrightarrow> find_join_path reg from_id to_id visited \<noteq> None"
proof (induction "unvisited reg visited" arbitrary: from_id visited rule: less_induct)
  case less
  show ?case
  proof (cases "from_id = to_id")
    case True
    then show ?thesis by (subst find_join_path.simps) simp
  next
    case False
    have "\<not> (hop reg (insert from_id visited))\<^sup>*\<^sup>* from_id to_id"
    proof
      assume "(hop reg (insert from_id visited))\<^sup>*\<^sup>* from_id to_id"
      then have "from_id = to_id" by (rule hop_blocked) simp
      with False show False by simp
    qed
    with last_visit [OF less.prems False]
    obtain c where c: "hop reg visited from_id c"
        and rest: "(hop reg (insert from_id visited))\<^sup>*\<^sup>* c to_id"
      by blast
    from c obtain fe where nv: "from_id \<notin> visited" and fe: "get_entity reg from_id = Some fe"
        and cv: "c \<notin> visited"
      by (auto simp: hop_def)
    have cne: "c \<noteq> from_id"
    proof
      assume "c = from_id"
      with rest have "(hop reg (insert from_id visited))\<^sup>*\<^sup>* from_id to_id" by simp
      then have "from_id = to_id" by (rule hop_blocked) simp
      with False show False by simp
    qed
    from nv fe have "unvisited reg (insert from_id visited) < unvisited reg visited"
      by (auto simp: get_entity_def intro: unvisited_insert)
    from less.hyps [OF this rest]
    have sub: "find_join_path reg c to_id (insert from_id visited) \<noteq> None" .
    from c have "forward_edge reg from_id c \<or> reverse_edge reg from_id c"
      by (simp add: hop_def)
    then have "\<exists>s \<in> set (filter (\<lambda>s. step_to s \<notin> insert from_id visited) (forward_steps from_id fe)
                          @ reverse_steps reg from_id (insert from_id visited)).
                 step_to s = c"
    proof
      assume "forward_edge reg from_id c"
      from forward_edge_step [OF fe this] cv cne show ?thesis by auto
    next
      assume "reverse_edge reg from_id c"
      from reverse_edge_step [OF this, of "insert from_id visited"] cv cne show ?thesis by auto
    qed
    then obtain s where s: "s \<in> set (filter (\<lambda>s. step_to s \<notin> insert from_id visited)
                                 (forward_steps from_id fe)
                               @ reverse_steps reg from_id (insert from_id visited))"
        and sc: "step_to s = c"
      by blast
    have "first_hop reg to_id (insert from_id visited)
            (filter (\<lambda>s. step_to s \<notin> insert from_id visited) (forward_steps from_id fe)
             @ reverse_steps reg from_id (insert from_id visited)) \<noteq> None"
    proof
      assume "first_hop reg to_id (insert from_id visited)
            (filter (\<lambda>s. step_to s \<notin> insert from_id visited) (forward_steps from_id fe)
             @ reverse_steps reg from_id (insert from_id visited)) = None"
      then have "find_join_path reg (step_to s) to_id (insert from_id visited) = None"
        using s unfolding first_hop_eq_None by (rule bspec)
      with sub sc show False by simp
    qed
    with False nv fe show ?thesis
      by (subst find_join_path_priority) (simp split: option.splits)
  qed
qed


lemma active_insert:
  assumes "map_of reg k = Some e" and "k \<notin> visited" and "participates reg k"
  shows "active reg (insert k visited) < active reg visited"
proof -
  let ?old = "filter (\<lambda>(k', e). k' \<notin> visited \<and> participates reg k') reg"
  have "filter (\<lambda>(k', e). k' \<notin> insert k visited \<and> Q k') xs
          = filter (\<lambda>(k', e). k' \<noteq> k) (filter (\<lambda>(k', e). k' \<notin> visited \<and> Q k') xs)"
    for Q and xs :: registry
    by (induction xs) auto
  then have eq: "filter (\<lambda>(k', e). k' \<notin> insert k visited \<and> participates reg k') reg
            = filter (\<lambda>(k', e). k' \<noteq> k) ?old" .
  from assms(1) have "(k, e) \<in> set reg" by (rule map_of_SomeD)
  with assms(2,3) have "(k, e) \<in> set ?old" by simp
  then have "length (filter (\<lambda>(k', e). k' \<noteq> k) ?old) < length ?old"
    by (rule length_filter_less) simp
  then show ?thesis by (simp only: active_def eq)
qed

lemma active_le: "active reg visited \<le> active reg {}"
proof -
  have "length (filter (\<lambda>(k, e). k \<notin> visited \<and> Q k) xs)
          \<le> length (filter (\<lambda>(k, e). k \<notin> {} \<and> Q k) xs)" for Q and xs :: registry
    by (induction xs) auto
  then show ?thesis by (simp add: active_def)
qed

lemma reverse_rels_no_call:
  assumes "\<forall>r \<in> set rs. target_entity r \<noteq> f"
  shows "multi_hop_reverse_rels_bounded n reg f t V k rs items
           = multi_hop_reverse_bounded n reg f t V items"
    and "multi_hop_reverse_rels reg f t V k rs items = multi_hop_reverse reg f t V items"
  using assms by (induction rs) simp_all

lemma reverse_no_call:
  assumes "\<forall>(k, e) \<in> set items. \<forall>r \<in> set (relationships e). target_entity r \<noteq> f"
  shows "multi_hop_reverse_bounded n reg f t V items = Some None"
    and "multi_hop_reverse reg f t V items = None"
  using assms
proof (induction items)
  case Nil
  case 1 show ?case by simp
  case 2 show ?case by simp
next
  case (Cons a items)
  obtain k e where a: "a = (k, e)" by (cases a)
  case 1
  with Cons.IH(1) a show ?case by (simp add: reverse_rels_no_call)
  case 2
  with Cons.IH(2) a show ?case by (simp add: reverse_rels_no_call)
qed

lemma not_participates:
  assumes "\<not> participates reg f" and "get_entity reg f = Some fe"
  shows "relationships fe = []"
    and "\<forall>(k, e) \<in> set reg. \<forall>r \<in> set (relationships e). target_entity r \<noteq> f"
  using assms by (auto simp: participates_def list_ex_iff)

lemma bounded_agrees_active:
  "(\<forall>n. active reg visited < n \<longrightarrow>
      find_join_path_bounded n reg from_id to_id visited
        = Some (find_join_path reg from_id to_id visited))"
  "(\<forall>n. active reg visited1 < n \<longrightarrow>
      multi_hop_direct_bounded n reg from_id1 to_id1 visited1 rs
        = Some (multi_hop_direct reg from_id1 to_id1 visited1 rs))"
  "(\<forall>n. active reg visited2 < n \<longrightarrow>
      multi_hop_reverse_bounded n reg from_id2 to_id2 visited2 items
        = Some (multi_hop_reverse reg from_id2 to_id2 visited2 items))"
  "(\<forall>n. active reg visited3 < n \<longrightarrow>
      multi_hop_reverse_rels_bounded n reg from_id3 to_id3 visited3 entity_id rs3 items3
        = Some (multi_hop_reverse_rels reg from_id3 to_id3 visited3 entity_id rs3 items3))"
proof (induction reg from_id to_id visited and reg from_id1 to_id1 visited1 rs
         and reg from_id2 to_id2 visited2 items
         and reg from_id3 to_id3 visited3 entity_id rs3 items3
       rule: find_join_path_multi_hop_direct_multi_hop_reverse_multi_hop_reverse_rels.induct)
  case (1 reg from_id to_id visited)
  show ?case
  proof (intro allI impI)
    fix n assume n: "active reg visited < n"
    then obtain m where m: "n = Suc m" by (cases n) auto
    show "find_join_path_bounded n reg from_id to_id visited
            = Some (find_join_path reg from_id to_id visited)"
    proof (cases "from_id = to_id \<or> from_id \<in> visited \<or> get_entity reg from_id = None")
      case True
      then show ?thesis unfolding m
        by (auto simp: find_join_path.simps find_join_path_bounded.simps(2))
    next
      case False
      then obtain fe where fe: "get_entity reg from_id = Some fe" by auto
      show ?thesis
      proof (cases "participates reg from_id")
        case True
        with False fe have "active reg (insert from_id visited) < active reg visited"
          by (auto simp: get_entity_def intro: active_insert)
        with n m have lt: "active reg (insert from_id visited) < m" by simp
        from False fe lt "1.IH" show ?thesis unfolding m
          by (simp add: find_join_path.simps find_join_path_bounded.simps(2)
                split: option.splits)
      next
        case np: False
        note none = not_participates [OF np fe]
        from False fe show ?thesis unfolding m
          by (simp add: find_join_path.simps find_join_path_bounded.simps(2) none(1)
                reverse_no_call [OF none(2)] split: option.splits)
      qed
    qed
  qed
next
  case (2 reg from_id to_id visited)
  show ?case by simp
next
  case (3 reg from_id to_id visited r rs)
  then show ?case by (simp split: option.splits)
next
  case (4 reg from_id to_id visited)
  show ?case by simp
next
  case (5 reg from_id to_id visited entity_id ent items)
  then show ?case by simp
next
  case (6 reg from_id to_id visited entity_id items)
  then show ?case by simp
next
  case (7 reg from_id to_id visited entity_id r rs items)
  then show ?case by (simp split: option.splits)
qed

lemma active_ENTITIES: "active ENTITIES {} = 10"
  by code_simp

lemma length_ENTITIES: "length ENTITIES = 13"
  by code_simp

text \<open>
  C10.  The join path search terminates, also on a cyclic relationship graph.  A recursive
  call is made only from a registered, unvisited source and with that source added to the
  visited set, so the visited set grows strictly and the number of registered, unvisited
  entities strictly decreases.  Only an entity that takes part in a relationship (it
  declares one or is the target of one) can make a recursive call.  Hence the depth of the
  recursion, the outermost call included, is at most one more than the number \<open>active\<close>
  of registered, unvisited entities that take part in a relationship, which is at most the
  size of the registry: the search with a budget above \<open>active\<close> never exceeds it and
  returns the resolver's result.  On the shipped registry, for every source, target and
  visited set, the depth never exceeds the number of registered entities.
\<close>

theorem find_join_path_depth_bounded:
  "(get_entity reg from_id \<noteq> None \<and> from_id \<notin> visited
      \<longrightarrow> unvisited reg (insert from_id visited) < unvisited reg visited)
   \<and> active reg visited \<le> length reg
   \<and> (active reg visited < n
        \<longrightarrow> find_join_path_bounded n reg from_id to_id visited
              = Some (find_join_path reg from_id to_id visited))
   \<and> find_join_path_bounded (length ENTITIES) ENTITIES from_id to_id visited
       = Some (find_join_path ENTITIES from_id to_id visited)"
proof (intro conjI impI)
  assume "get_entity reg from_id \<noteq> None \<and> from_id \<notin> visited"
  then show "unvisited reg (insert from_id visited) < unvisited reg visited"
    by (auto simp: get_entity_def intro: unvisited_insert)
next
  show "active reg visited \<le> length reg"
    by (simp add: active_def)
next
  assume "active reg visited < n"
  with bounded_agrees_active(1) [of reg visited from_id to_id]
  show "find_join_path_bounded n reg from_id to_id visited
          = Some (find_join_path reg from_id to_id visited)"
    by blast
next
  have "active ENTITIES visited \<le> active ENTITIES {}"
    by (rule active_le)
  then have "active ENTITIES visited < length ENTITIES"
    by (simp add: active_ENTITIES length_ENTITIES)
  with bounded_agrees_active(1) [of ENTITIES visited from_id to_id]
  show "find_join_path_bounded (length ENTITIES) ENTITIES from_id to_id visited
          = Some (find_join_path ENTITIES from_id to_id visited)"
    by blast
qed

theorem find_join_path_depth_bounded_witness:
  "active ENTITIES {} < 11
   \<and> find_join_path_bounded 11 ENTITIES ''vehicles'' ''states'' {}
       = Some (Some [(''vehicles'', ''objects'', ''object_id'', ''object_id'', ''left''),
                     (''objects'', ''devices'', ''device_id'', ''device_id'', ''left''),
                     (''devices'', ''states'', ''device_id'', ''device_id'', ''inner'')])
   \<and> find_join_path_bounded 11 ENTITIES ''tags'' ''vehicles'' {} = Some None"
proof -
  have n: "active ENTITIES {} < 11"
    by (simp add: active_ENTITIES)
  have p1: "find_join_path ENTITIES ''vehicles'' ''states'' {}
          = Some [(''vehicles'', ''objects'', ''object_id'', ''object_id'', ''left''),
                  (''objects'', ''devices'', ''device_id'', ''device_id'', ''left''),
                  (''devices'', ''states'', ''device_id'', ''device_id'', ''inner'')]"
    by code_simp
  have p2: "find_join_path ENTITIES ''tags'' ''vehicles'' {} = None"
    by code_simp
  from n find_join_path_depth_bounded [of ENTITIES "''vehicles''" "{}" 11 "''states''"]
  have "find_join_path_bounded 11 ENTITIES ''vehicles'' ''states'' {}
          = Some (find_join_path ENTITIES ''vehicles'' ''states'' {})"
    by blast
  moreover
  from n find_join_path_depth_bounded [of ENTITIES "''tags''" "{}" 11 "''vehicles''"]
  have "find_join_path_bounded 11 ENTITIES ''tags'' ''vehicles'' {}
          = Some (find_join_path ENTITIES ''tags'' ''vehicles'' {})"
    by blast
  ultimately show ?thesis
    using n p1 p2 by simp
qed

text \<open>
  C4 (as amended).  The resolver follows the priority order: equal ids give the empty
  path; a visited source gives no path; an unregistered source gives no path; the first
  declared relationship to the target gives a single forward step; otherwise the first
  relationship that a registered, unvisited target entity declares towards the source
  gives a single step with the fields swapped; otherwise the first candidate, forward
  candidates in declared order before reverse candidates in registry order, from whose
  target the recursion succeeds; otherwise no path.  Whenever the target can be reached
  from the source by hops that leave registered entities and avoid the visited set, the
  resolver returns a path.
\<close>

theorem find_join_path_priority_complete:
  "find_join_path reg from_id to_id visited =
     (if from_id = to_id then Some []
      else if from_id \<in> visited then None
      else (case get_entity reg from_id of
              None \<Rightarrow> None
            | Some from_entity \<Rightarrow>
               (case List.find (\<lambda>s. step_to s = to_id) (forward_steps from_id from_entity) of
                  Some s \<Rightarrow> Some [s]
                | None \<Rightarrow>
                   (case List.find (\<lambda>s. step_to s = to_id)
                           (reverse_steps reg from_id (insert from_id visited)) of
                      Some s \<Rightarrow> Some [s]
                    | None \<Rightarrow>
                        first_hop reg to_id (insert from_id visited)
                          (filter (\<lambda>s. step_to s \<notin> insert from_id visited)
                                  (forward_steps from_id from_entity)
                           @ reverse_steps reg from_id (insert from_id visited))))))
   \<and> ((hop reg visited)\<^sup>*\<^sup>* from_id to_id
        \<longrightarrow> find_join_path reg from_id to_id visited \<noteq> None)"
  using find_join_path_priority [of reg from_id to_id visited]
    find_join_path_complete [of reg visited from_id to_id]
  by blast

theorem find_join_path_priority_complete_witness:
  "(hop ENTITIES {})\<^sup>*\<^sup>* ''vehicles'' ''devices''
   \<and> find_join_path ENTITIES ''vehicles'' ''devices'' {} \<noteq> None"
proof -
  have "hop ENTITIES {} ''vehicles'' ''objects''"
    by code_simp
  moreover have "hop ENTITIES {} ''objects'' ''devices''"
    by code_simp
  ultimately have r: "(hop ENTITIES {})\<^sup>*\<^sup>* ''vehicles'' ''devices''"
    by (meson rtranclp.rtrancl_into_rtrancl rtranclp.rtrancl_refl)
  with find_join_path_priority_complete [of ENTITIES "''vehicles''" "''devices''" "{}"]
  show ?thesis
    by blast
qed

text \<open>
  The claim as stated fails at two inputs of the shipped registry.  The entity
  \<^verbatim>\<open>vehicles\<close> declares a relationship to \<^verbatim>\<open>users\<close>, so the two are connected in the
  bidirectional graph, but \<^verbatim>\<open>users\<close> is not registered and the resolver finds no path
  from it.  And \<^verbatim>\<open>tracking_data_core\<close> declares a relationship to \<^verbatim>\<open>devices\<close>, but
  with \<^verbatim>\<open>tracking_data_core\<close> in the visited set the reverse check skips it (the
  two neighbours that \<^verbatim>\<open>devices\<close> declares are visited as well here, which keeps the
  search short).
\<close>

theorem find_join_path_counterexample:
  "reverse_edge ENTITIES ''users'' ''vehicles''
   \<and> find_join_path ENTITIES ''users'' ''vehicles'' {} = None
   \<and> reverse_edge ENTITIES ''devices'' ''tracking_data_core''
   \<and> find_join_path ENTITIES ''devices'' ''tracking_data_core''
         {''tracking_data_core'', ''objects'', ''sensor_description''} = None"
  by code_simp

section \<open>Properties of the compiler\<close>

lemma bind_error_simps [simp]:
  "bind_error (Inl e) f = Inl e" "bind_error (Inr x) f = f x"
  by (simp_all add: bind_error_def)

text \<open>
  C1.  The identifier check is meant to admit letters, digits and underscores only.  The
  pattern ends in \<^verbatim>\<open>$\<close>, which also matches before a final newline: a name that is
  an identifier followed by one newline passes the check and is concatenated into the
  query text, here as the table alias of a registry whose table name carries the newline.
\<close>

theorem sanitize_identifier_trailing_newline: "sanitize_identifier ''objects\<newline>'' = Inr ''objects\<newline>''
  \<and> build_query [(''t'', mk_entity ''s'' ''t\<newline>'' [mk_field ''f''] [])] example_env
       (simple_config ''t'' [select_field ''t'' ''f'' None])
     = Inr (''SELECT t\<newline>.f AS t_f\<newline>FROM s.t\<newline>\<newline>LIMIT 1000'', [])"
  by code_simp

text \<open>
  C9.  The preview replaces the text \<^verbatim>\<open>$1\<close> first, and that text is also the start of
  \<^verbatim>\<open>$10\<close>: with ten parameters 11, ..., 20 the tenth placeholder is rendered as the
  first parameter followed by \<^verbatim>\<open>0\<close>, that is \<^verbatim>\<open>110\<close> and not \<^verbatim>\<open>20\<close>.
\<close>

theorem generate_preview_sql_tenth_placeholder: "generate_preview_sql ENTITIES example_env
     ((simple_config ''objects'' [select_field ''objects'' ''object_id'' None])
        \<lparr>filters := [\<lparr>fc_entity_id = ''objects'', fc_field_id = ''object_id'', fc_operator = Op_IN,
            fc_value = PList (map PInt [11, 12, 13, 14, 15, 16, 17, 18, 19, 20]), fc_value2 = PNone\<rparr>]\<rparr>)
   = Inr ''SELECT objects.object_id AS objects_object_id\<newline>FROM raw_business_data.objects\<newline>WHERE objects.object_id IN (11, 12, 13, 14, 15, 16, 17, 18, 19, 110)\<newline>LIMIT 1000''"
  by code_simp

text \<open>
  C8.  A time-scope entity that is not the primary entity and is referenced by no selected
  field, filter or sort is not collected into \<^verbatim>\<open>used_entities\<close>: only its table alias
  is recorded.  The WHERE clause then names \<^verbatim>\<open>tracking_data_core\<close>, which no FROM or
  JOIN clause of the query introduces.
\<close>

theorem build_query_time_scope_not_joined: "build_query ENTITIES example_env
     ((simple_config ''vehicles'' [select_field ''vehicles'' ''vehicle_label'' None])
        \<lparr>time_range := Some \<lparr>tr_type = ''relative'', relative_value = Some 7,
             relative_unit = Some ''days'', start_date = None, end_date = None\<rparr>,
         time_field := Some ''device_time'', time_field_entity := Some ''tracking_data_core''\<rparr>)
   = Inr (''SELECT vehicles.vehicle_label AS vehicles_vehicle_label\<newline>FROM raw_business_data.vehicles\<newline>WHERE tracking_data_core.device_time >= $1 AND tracking_data_core.device_time <= $2\<newline>LIMIT 1000'',
          [PStr ''2025-10-30T01:02:03.000004'', PStr ''2025-11-06T01:02:03.000004''])"
  by code_simp

lemma timedelta_us_ok:
  "- 999999999 * 86400000000 \<le> us \<Longrightarrow> us < 1000000000 * 86400000000
     \<Longrightarrow> timedelta_us us = Inr us"
  unfolding timedelta_us_def us_per_day_def by simp linarith

lemma timedelta_ok:
  assumes "\<bar>v\<bar> * 365 \<le> 999999999"
  shows "timedelta_hours v = Inr (v * 3600000000)"
    and "timedelta_days v = Inr (v * 86400000000)"
    and "timedelta_weeks v = Inr (v * 7 * 86400000000)"
    and "timedelta_days (v * 30) = Inr (v * 30 * 86400000000)"
    and "timedelta_days (v * 365) = Inr (v * 365 * 86400000000)"
    and "timedelta_days 7 = Inr (7 * 86400000000)"
  using assms
  by (simp_all add: timedelta_hours_def timedelta_days_def timedelta_weeks_def us_per_day_def
        timedelta_us_ok)

text \<open>
  C5 (as amended).  For a relative time range whose count \<open>v\<close> (0 when absent) has
  \<open>365 |v|\<close> within the library's limit of 999999999 days, and whose lower bound is a
  representable date, the resolver returns the pair \<open>(now - delta, now)\<close> with \<open>delta\<close>
  equal to \<open>v\<close> hours, days or weeks, \<open>30 v\<close> days for months, \<open>365 v\<close> days for years,
  \<open>v\<close> days when the unit is absent or empty, and 7 days for any other unit.
\<close>

theorem calculate_time_range_relative:
  assumes "tr_type tr \<noteq> ''absolute''"
    and "\<bar>relative_count tr\<bar> * 365 \<le> 999999999"
    and "0 \<le> utcnow env - relative_delta (relative_count tr) (relative_unit tr)"
    and "utcnow env - relative_delta (relative_count tr) (relative_unit tr) \<le> max_ticks"
  shows "calculate_time_range env tr =
           Inr (Some \<lparr>ticks = utcnow env - relative_delta (relative_count tr) (relative_unit tr),
                      utcoffset = None\<rparr>,
                Some \<lparr>ticks = utcnow env, utcoffset = None\<rparr>)"
proof -
  have sub: "datetime_sub \<lparr>ticks = utcnow env, utcoffset = None\<rparr>
               (relative_delta (relative_count tr) (relative_unit tr))
             = Inr \<lparr>ticks = utcnow env - relative_delta (relative_count tr) (relative_unit tr),
                     utcoffset = None\<rparr>"
    using assms(3,4) by (simp add: datetime_sub_def)
  have pick: "(if str_or (relative_unit tr) ''days'' = ''hours'' then relative_count tr * 3600000000
       else if str_or (relative_unit tr) ''days'' = ''days'' then relative_count tr * 86400000000
       else if str_or (relative_unit tr) ''days'' = ''weeks''
         then relative_count tr * 7 * 86400000000
       else if str_or (relative_unit tr) ''days'' = ''months''
         then relative_count tr * 30 * 86400000000
       else if str_or (relative_unit tr) ''days'' = ''years''
         then relative_count tr * 365 * 86400000000
       else 7 * 86400000000)
      = relative_delta (relative_count tr) (relative_unit tr)"
    by (simp only: relative_delta_def)
  show ?thesis
    unfolding calculate_time_range_def Let_def relative_count_def [symmetric]
    by (simp only: assms(1) if_False timedelta_ok [OF assms(2)] bind_error_simps pick sub)
qed

theorem calculate_time_range_relative_witness:
  "calculate_time_range example_env
     \<lparr>tr_type = ''relative'', relative_value = Some 7, relative_unit = Some ''days'',
      start_date = None, end_date = None\<rparr>
   = Inr (Some \<lparr>ticks = 63897987723000004 - 7 * 86400000000, utcoffset = None\<rparr>,
          Some \<lparr>ticks = 63897987723000004, utcoffset = None\<rparr>)"
  using calculate_time_range_relative [of
      "\<lparr>tr_type = ''relative'', relative_value = Some 7, relative_unit = Some ''days'',
        start_date = None, end_date = None\<rparr>" example_env]
  by (simp add: relative_count_def relative_delta_def str_or_def example_env_def max_ticks_def)

text \<open>
  With the unit absent and the count 3 the delta is 3 days, not the 7 days the claim
  states for an absent unit.
\<close>

theorem calculate_time_range_counterexample:
  "calculate_time_range example_env
     \<lparr>tr_type = ''relative'', relative_value = Some 3, relative_unit = None,
      start_date = None, end_date = None\<rparr>
   = Inr (Some \<lparr>ticks = utcnow example_env - 3 * 86400000000, utcoffset = None\<rparr>,
          Some \<lparr>ticks = utcnow example_env, utcoffset = None\<rparr>)
   \<and> calculate_time_range example_env
     \<lparr>tr_type = ''relative'', relative_value = Some 3, relative_unit = None,
      start_date = None, end_date = None\<rparr>
   \<noteq> Inr (Some \<lparr>ticks = utcnow example_env - 7 * 86400000000, utcoffset = None\<rparr>,
          Some \<lparr>ticks = utcnow example_env, utcoffset = None\<rparr>)"
  by code_simp

lemma bind_error_Inr_iff:
  "bind_error m f = Inr y \<longleftrightarrow> (\<exists>x. m = Inr x \<and> f x = Inr y)"
  by (cases m) simp_all

lemma sanitize_identifier_Inr:
  "sanitize_identifier n = Inr r \<Longrightarrow> r = n \<and> re_match_identifier n"
  by (simp add: sanitize_identifier_def split: if_splits)

lemma get_qualified_field_name_Inr:
  "get_qualified_field_name ent fld a = Inr q
     \<Longrightarrow> q = a @ ''.'' @ ef_name fld \<and> re_match_identifier a \<and> re_match_identifier (ef_name fld)"
  by (auto simp: get_qualified_field_name_def dest!: sanitize_identifier_Inr split: sum.splits)

lemma map_of_in_fst: "k \<in> fst ` set xs \<longleftrightarrow> map_of xs k \<noteq> None"
  by (simp add: map_of_eq_None_iff)

lemma add_used_entity_unregistered:
  "get_entity reg k = None \<Longrightarrow> add_used_entity reg used k = used"
  by (simp add: add_used_entity_def)

lemma map_of_add_used_entity:
  "map_of (add_used_entity reg used k) k' =
     (case map_of used k' of
        Some e \<Rightarrow> Some e
      | None \<Rightarrow> if k' = k then get_entity reg k else None)"
  by (auto simp: add_used_entity_def map_of_in_fst map_add_def split: option.splits)

lemma used_ok_add: "used_ok reg used \<Longrightarrow> used_ok reg (add_used_entity reg used k)"
  by (auto simp: used_ok_def map_of_add_used_entity split: option.splits if_splits)

lemma used_ok_foldl:
  "used_ok reg used \<Longrightarrow> used_ok reg (foldl (add_used_entity reg) used ks)"
  by (induction ks arbitrary: used) (simp_all add: used_ok_add)

lemma map_of_foldl_mono:
  "map_of used k = Some e \<Longrightarrow> map_of (foldl (add_used_entity reg) used ks) k = Some e"
  by (induction ks arbitrary: used) (simp_all add: map_of_add_used_entity)

lemma map_of_foldl_member:
  "used_ok reg used \<Longrightarrow> k \<in> set ks
     \<Longrightarrow> map_of (foldl (add_used_entity reg) used ks) k = get_entity reg k"
proof (induction ks arbitrary: used)
  case Nil
  then show ?case by simp
next
  case (Cons a ks)
  show ?case
  proof (cases "k = a")
    case True
    show ?thesis
    proof (cases "get_entity reg k")
      case None
      have "used_ok reg (foldl (add_used_entity reg) used (a # ks))"
        using Cons.prems(1) by (rule used_ok_foldl)
      with None show ?thesis
        by (cases "map_of (foldl (add_used_entity reg) used (a # ks)) k")
           (auto simp: used_ok_def)
    next
      case (Some e)
      have "map_of (add_used_entity reg used a) k = Some e"
        using Some True Cons.prems(1)
        by (auto simp: map_of_add_used_entity used_ok_def split: option.splits)
      then show ?thesis using Some by (simp add: map_of_foldl_mono)
    qed
  next
    case False
    with Cons.prems have "k \<in> set ks" by simp
    with Cons.IH [OF used_ok_add [OF Cons.prems(1)]] show ?thesis by simp
  qed
qed

lemma collect_used_ok:
  assumes "get_entity reg (primary_entity config) = Some primary"
  shows "used_ok reg (collect_used_entities reg config primary)"
  unfolding collect_used_entities_def
  by (intro used_ok_foldl) (simp add: used_ok_def assms)

lemma collect_used_primary:
  "map_of (collect_used_entities reg config primary) (primary_entity config) = Some primary"
  unfolding collect_used_entities_def
  by (intro map_of_foldl_mono) simp

lemma collect_used_selected:
  assumes "get_entity reg (primary_entity config) = Some primary"
    and "f \<in> set (selected_fields config)"
  shows "map_of (collect_used_entities reg config primary) (sf_entity_id f)
           = get_entity reg (sf_entity_id f)"
proof -
  have ok: "used_ok reg [(primary_entity config, primary)]"
    by (simp add: used_ok_def assms(1))
  have 1: "map_of (foldl (add_used_entity reg) [(primary_entity config, primary)]
             (map sf_entity_id (selected_fields config))) (sf_entity_id f)
           = get_entity reg (sf_entity_id f)"
    using ok assms(2) by (intro map_of_foldl_member) auto
  show ?thesis
  proof (cases "get_entity reg (sf_entity_id f)")
    case None
    with collect_used_ok [OF assms(1)] show ?thesis
      by (cases "map_of (collect_used_entities reg config primary) (sf_entity_id f)")
         (auto simp: used_ok_def)
  next
    case (Some e)
    with 1 show ?thesis
      unfolding collect_used_entities_def by (simp add: map_of_foldl_mono)
  qed
qed

lemma build_select_unresolved:
  assumes "\<forall>f \<in> set fs. map_of used (sf_entity_id f) = None
              \<or> (\<exists>ent. map_of used (sf_entity_id f) = Some ent \<and> find_field ent (sf_field_id f) = None)"
  shows "build_select config used ta fs sp gb = Inr (sp, gb)"
  using assms by (induction fs) auto

lemma build_where_skip:
  assumes "\<forall>f \<in> set fs. \<not> P f \<longrightarrow> skipped used (fc_entity_id f) (fc_field_id f)"
  shows "build_where used ta (filter P fs) wc ps idx = build_where used ta fs wc ps idx"
  using assms
proof (induction fs arbitrary: wc ps idx)
  case Nil
  show ?case by simp
next
  case (Cons f fs)
  show ?case
  proof (cases "P f")
    case True
    with Cons show ?thesis
      by (simp add: bind_error_def split: option.splits sum.splits prod.splits)
  next
    case False
    with Cons.prems have "skipped used (fc_entity_id f) (fc_field_id f)" by simp
    with False Cons show ?thesis
      by (simp add: skipped_def split: option.splits)
  qed
qed

lemma build_order_skip:
  assumes "\<forall>s \<in> set ss. \<not> P s \<longrightarrow> skipped used (sc_entity_id s) (sc_field_id s)"
  shows "build_order used ta (filter P ss) ops = build_order used ta ss ops"
  using assms
proof (induction ss arbitrary: ops)
  case Nil
  show ?case by simp
next
  case (Cons s ss)
  show ?case
  proof (cases "P s")
    case True
    with Cons show ?thesis
      by (simp add: bind_error_def split: option.splits sum.splits prod.splits)
  next
    case False
    with Cons.prems have "skipped used (sc_entity_id s) (sc_field_id s)" by simp
    with False Cons show ?thesis
      by (simp add: skipped_def split: option.splits)
  qed
qed

lemma build_select_skip:
  assumes "\<forall>s \<in> set fs. \<not> P s \<longrightarrow> skipped used (sf_entity_id s) (sf_field_id s)"
  shows "build_select config used ta (filter P fs) sp gb = build_select config used ta fs sp gb"
  using assms
proof (induction fs arbitrary: sp gb)
  case Nil
  show ?case by simp
next
  case (Cons s fs)
  show ?case
  proof (cases "P s")
    case True
    with Cons show ?thesis
      by (simp add: bind_error_def split: option.splits sum.splits prod.splits)
  next
    case False
    with Cons.prems have "skipped used (sf_entity_id s) (sf_field_id s)" by simp
    with False Cons show ?thesis
      by (simp add: skipped_def split: option.splits)
  qed
qed

lemma build_select_config:
  assumes "has_aggregation c1 = has_aggregation c2" and "group_by c1 = group_by c2"
  shows "build_select c1 used ta fs sp gb = build_select c2 used ta fs sp gb"
  using assms
  by (induction fs arbitrary: sp gb)
     (simp_all add: is_in_group_by_def split: option.splits)

lemma keys_add_used:
  "k \<in> fst ` set used \<Longrightarrow> k \<in> fst ` set (add_used_entity reg used k')"
  by (auto simp: add_used_entity_def split: option.splits)

lemma add_used_entity_member:
  "k \<in> fst ` set used \<Longrightarrow> add_used_entity reg used k = used"
  by (simp add: add_used_entity_def)

lemma foldl_add_used_map_filter:
  assumes "\<forall>x \<in> set xs. \<not> P x \<longrightarrow> get_entity reg (g x) = None \<or> g x = p"
    and "p \<in> fst ` set used"
  shows "foldl (add_used_entity reg) used (map g (filter P xs))
           = foldl (add_used_entity reg) used (map g xs)"
  using assms
proof (induction xs arbitrary: used)
  case Nil
  show ?case by simp
next
  case (Cons x xs)
  from Cons.prems(2) have p': "p \<in> fst ` set (add_used_entity reg used (g x))"
    by (rule keys_add_used)
  show ?case
  proof (cases "P x")
    case True
    with Cons.IH [OF _ p'] Cons.prems(1) show ?thesis by simp
  next
    case False
    with Cons.prems(1) have "get_entity reg (g x) = None \<or> g x = p" by simp
    then have "add_used_entity reg used (g x) = used"
    proof
      assume "get_entity reg (g x) = None"
      then show ?thesis by (rule add_used_entity_unregistered)
    next
      assume "g x = p"
      with Cons.prems(2) show ?thesis by (simp add: add_used_entity_member)
    qed
    with False Cons.IH [OF _ Cons.prems(2)] Cons.prems(1) show ?thesis by simp
  qed
qed

lemma keys_foldl_add_used:
  "k \<in> fst ` set used \<Longrightarrow> k \<in> fst ` set (foldl (add_used_entity reg) used ks)"
  by (induction ks arbitrary: used) (simp_all add: keys_add_used)

lemma collect_used_without_droppable:
  "collect_used_entities reg (without_droppable reg config) primary
     = collect_used_entities reg config primary"
proof -
  let ?p = "primary_entity config"
  let ?u0 = "[(?p, primary)]"
  let ?u1 = "foldl (add_used_entity reg) ?u0 (map sf_entity_id (selected_fields config))"
  let ?u2 = "foldl (add_used_entity reg) ?u1 (map fc_entity_id (filters config))"
  have k0: "?p \<in> fst ` set ?u0" by simp
  then have k1: "?p \<in> fst ` set ?u1" by (rule keys_foldl_add_used)
  then have k2: "?p \<in> fst ` set ?u2" by (rule keys_foldl_add_used)
  have 1: "foldl (add_used_entity reg) ?u0
             (map sf_entity_id
                (filter (\<lambda>s. \<not> (droppable reg config (sf_entity_id s) (sf_field_id s)
                                \<and> sf_aggregation s = None))
                   (selected_fields config))) = ?u1"
    by (rule foldl_add_used_map_filter [OF _ k0]) (auto simp: droppable_def)
  have 2: "foldl (add_used_entity reg) ?u1
             (map fc_entity_id
                (filter (\<lambda>f. \<not> droppable reg config (fc_entity_id f) (fc_field_id f))
                   (filters config))) = ?u2"
    by (rule foldl_add_used_map_filter [OF _ k1]) (auto simp: droppable_def)
  have 3: "foldl (add_used_entity reg) ?u2
             (map sc_entity_id
                (filter (\<lambda>s. \<not> droppable reg config (sc_entity_id s) (sc_field_id s))
                   (sorting config)))
           = foldl (add_used_entity reg) ?u2 (map sc_entity_id (sorting config))"
    by (rule foldl_add_used_map_filter [OF _ k2]) (auto simp: droppable_def)
  have sel: "selected_fields (without_droppable reg config)
             = filter (\<lambda>s. \<not> (droppable reg config (sf_entity_id s) (sf_field_id s)
                                \<and> sf_aggregation s = None))
                   (selected_fields config)"
    and flt: "filters (without_droppable reg config)
             = filter (\<lambda>f. \<not> droppable reg config (fc_entity_id f) (fc_field_id f))
                   (filters config)"
    and srt: "sorting (without_droppable reg config)
             = filter (\<lambda>s. \<not> droppable reg config (sc_entity_id s) (sc_field_id s))
                   (sorting config)"
    and pe: "primary_entity (without_droppable reg config) = primary_entity config"
    by (simp_all add: without_droppable_def)
  show ?thesis
    unfolding collect_used_entities_def sel flt srt pe by (simp only: 1 2 3)
qed

lemma droppable_skipped:
  assumes "get_entity reg (primary_entity config) = Some primary"
    and "droppable reg config e f"
  shows "skipped (collect_used_entities reg config primary) e f"
proof (cases "get_entity reg e")
  case None
  with collect_used_ok [OF assms(1)] show ?thesis
    by (cases "map_of (collect_used_entities reg config primary) e")
       (auto simp: skipped_def used_ok_def)
next
  case (Some ent)
  with assms(2) have e: "e = primary_entity config" and "\<not> resolves reg e f"
    by (auto simp: droppable_def)
  with assms(1) have "find_field primary f = None"
    by (simp add: resolves_def)
  with e show ?thesis
    by (simp add: skipped_def collect_used_primary)
qed

lemma has_aggregation_without_droppable:
  "has_aggregation (without_droppable reg config) = has_aggregation config"
proof -
  have "list_ex (\<lambda>f. sf_aggregation f \<noteq> None)
          (filter (\<lambda>s. \<not> (Q s \<and> sf_aggregation s = None)) xs)
        = list_ex (\<lambda>f. sf_aggregation f \<noteq> None) xs" for Q and xs :: "SelectedField list"
    by (induction xs) auto
  then show ?thesis
    by (simp add: has_aggregation_def without_droppable_def del: not_None_eq)
qed

lemma build_clauses_without_droppable:
  "build_clauses reg env (without_droppable reg config) = build_clauses reg env config"
proof (cases "get_entity reg (primary_entity config)")
  case None
  then show ?thesis by (simp add: build_clauses_def without_droppable_def)
next
  case (Some primary)
  let ?used = "collect_used_entities reg config primary"
  let ?c = "without_droppable reg config"
  have p: "primary_entity ?c = primary_entity config" "limit ?c = limit config"
    by (simp_all add: without_droppable_def)
  have sel: "build_select ?c ?used ta (selected_fields ?c) sp gb
             = build_select config ?used ta (selected_fields config) sp gb" for ta sp gb
  proof -
    have "build_select ?c ?used ta (selected_fields ?c) sp gb
          = build_select config ?used ta (selected_fields ?c) sp gb"
      by (rule build_select_config)
         (simp_all add: has_aggregation_without_droppable, simp add: without_droppable_def)
    also have "\<dots> = build_select config ?used ta (selected_fields config) sp gb"
      unfolding without_droppable_def
      by (simp, rule build_select_skip) (auto intro: droppable_skipped [OF Some])
    finally show ?thesis .
  qed
  have wh: "build_where ?used ta (filters ?c) wc ps idx
            = build_where ?used ta (filters config) wc ps idx" for ta wc ps idx
    unfolding without_droppable_def
    by (simp, rule build_where_skip) (auto intro: droppable_skipped [OF Some])
  have ord: "build_order ?used ta (sorting ?c) ops
            = build_order ?used ta (sorting config) ops" for ta ops
    unfolding without_droppable_def
    by (simp, rule build_order_skip) (auto intro: droppable_skipped [OF Some])
  have tf: "build_time_filter reg env ?c ta st = build_time_filter reg env config ta st" for ta st
    by (simp add: build_time_filter_def without_droppable_def cong: option.case_cong if_cong)
  show ?thesis
    unfolding build_clauses_def
    by (simp add: p Some collect_used_without_droppable sel wh ord tf Let_def cong: if_cong)
qed

text \<open>
  C3 (as amended).  The build rejects a configuration whose primary entity is not
  registered, and one none of whose selected fields resolves.  It does not reject every
  unresolvable reference: a filter, a sort spec or a selected field without aggregation
  that does not resolve, and whose entity is unregistered or is the primary entity, is
  dropped without a trace; the result is that of the configuration without these
  references.
\<close>

theorem build_query_rejections:
  "(get_entity reg (primary_entity config) = None
      \<longrightarrow> build_query reg env config
            = Inl (ValueError (''Unknown entity: '' @ primary_entity config)))
   \<and> (get_entity reg (primary_entity config) \<noteq> None
        \<and> (\<forall>f \<in> set (selected_fields config).
              \<not> resolves reg (sf_entity_id f) (sf_field_id f))
      \<longrightarrow> build_query reg env config = Inl (ValueError ''No valid fields selected''))
   \<and> build_query reg env (without_droppable reg config) = build_query reg env config"
proof (intro conjI impI)
  assume "get_entity reg (primary_entity config) = None"
  then show "build_query reg env config
               = Inl (ValueError (''Unknown entity: '' @ primary_entity config))"
    by (simp add: build_query_def build_clauses_def)
next
  assume a: "get_entity reg (primary_entity config) \<noteq> None
             \<and> (\<forall>f \<in> set (selected_fields config).
                   \<not> resolves reg (sf_entity_id f) (sf_field_id f))"
  then obtain primary where p: "get_entity reg (primary_entity config) = Some primary"
    by auto
  let ?used = "collect_used_entities reg config primary"
  have "\<forall>f \<in> set (selected_fields config). map_of ?used (sf_entity_id f) = None
          \<or> (\<exists>ent. map_of ?used (sf_entity_id f) = Some ent
                    \<and> find_field ent (sf_field_id f) = None)"
  proof
    fix f assume f: "f \<in> set (selected_fields config)"
    with a have "\<not> resolves reg (sf_entity_id f) (sf_field_id f)" by blast
    then show "map_of ?used (sf_entity_id f) = None
          \<or> (\<exists>ent. map_of ?used (sf_entity_id f) = Some ent
                    \<and> find_field ent (sf_field_id f) = None)"
      unfolding collect_used_selected [OF p f]
      by (cases "get_entity reg (sf_entity_id f)") (simp_all add: resolves_def)
  qed
  then have "build_select config ?used (table_aliases_of ?used) (selected_fields config) [] []
               = Inr ([], [])"
    by (rule build_select_unresolved)
  then show "build_query reg env config = Inl (ValueError ''No valid fields selected'')"
    by (simp add: build_query_def build_clauses_def p Let_def)
next
  show "build_query reg env (without_droppable reg config) = build_query reg env config"
    unfolding build_query_def by (simp only: build_clauses_without_droppable)
qed

theorem build_query_rejections_witness:
  "build_query ENTITIES example_env (simple_config ''no_such_entity'' [])
     = Inl (ValueError ''Unknown entity: no_such_entity'')
   \<and> build_query ENTITIES example_env
       (simple_config ''objects'' [select_field ''objects'' ''no_such_field'' None,
                                   select_field ''no_such_entity'' ''object_id'' None])
     = Inl (ValueError ''No valid fields selected'')"
proof -
  have 1: "get_entity ENTITIES (primary_entity (simple_config ''no_such_entity'' [])) = None"
    by code_simp
  have 2: "get_entity ENTITIES (primary_entity
             (simple_config ''objects'' [select_field ''objects'' ''no_such_field'' None,
                                   select_field ''no_such_entity'' ''object_id'' None])) \<noteq> None"
    by code_simp
  have 3: "\<forall>f \<in> set (selected_fields
             (simple_config ''objects'' [select_field ''objects'' ''no_such_field'' None,
                                   select_field ''no_such_entity'' ''object_id'' None])).
             \<not> resolves ENTITIES (sf_entity_id f) (sf_field_id f)"
    by code_simp
  from 1 build_query_rejections [of ENTITIES "simple_config ''no_such_entity'' []" example_env]
  have "build_query ENTITIES example_env (simple_config ''no_such_entity'' [])
     = Inl (ValueError (''Unknown entity: '' @ primary_entity (simple_config ''no_such_entity'' [])))"
    by blast
  moreover
  from 2 3 build_query_rejections [of ENTITIES
        "simple_config ''objects'' [select_field ''objects'' ''no_such_field'' None,
                                   select_field ''no_such_entity'' ''object_id'' None]" example_env]
  have "build_query ENTITIES example_env
       (simple_config ''objects'' [select_field ''objects'' ''no_such_field'' None,
                                   select_field ''no_such_entity'' ''object_id'' None])
     = Inl (ValueError ''No valid fields selected'')"
    by blast
  ultimately show ?thesis
    by (simp add: simple_config_def)
qed

text \<open>
  The claim as stated fails: the unresolvable references of this configuration, beside a
  resolvable selected field, are skipped and the build returns a query.
\<close>

theorem build_query_unresolved_counterexample:
  "build_query ENTITIES example_env unresolved_config
     = Inr (''SELECT objects.object_id AS objects_object_id\<newline>FROM raw_business_data.objects\<newline>LIMIT 1000'', [])"
  by code_simp

lemma lookup_alias_table_aliases_of:
  "lookup_alias (table_aliases_of used) k =
     (case map_of used k of None \<Rightarrow> Inl (KeyError k) | Some e \<Rightarrow> Inr (table_name e))"
  by (induction used) (auto simp: lookup_alias_def table_aliases_of_def split: option.splits)

lemma build_select_group_by:
  assumes "build_select config used (table_aliases_of used) fs sp gb = Inr (sp', gb')"
    and "\<forall>f \<in> set fs. map_of used (sf_entity_id f) = get_entity reg (sf_entity_id f)"
  shows "gb' = gb @ concat (map (\<lambda>f. case get_entity reg (sf_entity_id f) of
                         None \<Rightarrow> []
                       | Some ent \<Rightarrow>
                           (case find_field ent (sf_field_id f) of
                              None \<Rightarrow> []
                            | Some fld \<Rightarrow>
                                if sf_aggregation f = None \<and> has_aggregation config
                                   \<and> is_in_group_by config f
                                then [table_name ent @ ''.'' @ ef_name fld] else [])) fs)"
  using assms
proof (induction fs arbitrary: sp gb)
  case Nil
  then show ?case by simp
next
  case (Cons f fs)
  from Cons.prems(2) have m: "map_of used (sf_entity_id f) = get_entity reg (sf_entity_id f)"
      and rest: "\<forall>f \<in> set fs. map_of used (sf_entity_id f) = get_entity reg (sf_entity_id f)"
    by simp_all
  show ?case
  proof (cases "get_entity reg (sf_entity_id f)")
    case None
    with Cons.prems(1) m Cons.IH [OF _ rest] show ?thesis by simp
  next
    case (Some ent)
    show ?thesis
    proof (cases "find_field ent (sf_field_id f)")
      case None
      with Cons.prems(1) m Some Cons.IH [OF _ rest] show ?thesis by simp
    next
      case fld: (Some fld)
      from Cons.prems(1) m Some fld obtain q where
          q: "get_qualified_field_name ent fld (table_name ent) = Inr q"
        and r: "build_select config used (table_aliases_of used) fs
                  (sp @ [(case sf_aggregation f of
                            Some a \<Rightarrow> build_aggregation q a
                          | None \<Rightarrow> q)
                         @ '' AS ''
                         @ get_field_alias (sf_entity_id f) (sf_field_id f) (sf_aggregation f)])
                  (if sf_aggregation f = None \<and> has_aggregation config
                      \<and> is_in_group_by config f
                   then gb @ [q] else gb) = Inr (sp', gb')"
        by (auto simp: lookup_alias_table_aliases_of bind_error_Inr_iff)
      from get_qualified_field_name_Inr [OF q]
      have qq: "q = table_name ent @ ''.'' @ ef_name fld" by simp
      from Cons.IH [OF r rest] Some fld qq show ?thesis by simp
    qed
  qed
qed

lemma sanitize_identifier_match:
  "sanitize_identifier n = Inr r \<Longrightarrow> re_match_identifier r"
  by (simp add: sanitize_identifier_def split: if_splits)

lemma build_path_joins_step:
  assumes "build_path_joins reg ((f, t, ff, tf, jt) # rest) jc je = Inr res"
    and "t \<notin> je" and "get_entity reg t = Some te" and "get_entity reg f = Some fe"
  shows "\<exists>a b c' d e.
           sanitize_identifier (schema_name te) = Inr a
           \<and> sanitize_identifier (table_name te) = Inr b
           \<and> sanitize_identifier (table_name fe) = Inr c'
           \<and> sanitize_identifier ff = Inr d
           \<and> sanitize_identifier tf = Inr e
           \<and> build_path_joins reg rest
                 (jc @ [join_type_sql jt @ '' JOIN '' @ a @ ''.'' @ b @ '' ON '' @ c' @ ''.'' @ d
                        @ '' = '' @ b @ ''.'' @ e])
                 (insert t je) = Inr res"
  using assms by (simp add: bind_error_Inr_iff)

lemma build_path_joins_clauses:
  assumes "build_path_joins reg path jc je = Inr (jc', je')"
    and "\<forall>c \<in> set jc. join_clause c"
  shows "\<forall>c \<in> set jc'. join_clause c"
  using assms
proof (induction path arbitrary: jc je)
  case Nil
  then show ?case by simp
next
  case (Cons step rest)
  obtain f t ff tf jt where step: "step = (f, t, ff, tf, jt)"
    by (cases step)
  show ?case
  proof (cases "t \<in> je \<or> get_entity reg t = None \<or> get_entity reg f = None")
    case True
    with Cons.prems(1) have "build_path_joins reg rest jc je = Inr (jc', je')"
      unfolding step by (auto split: option.splits)
    from Cons.IH [OF this Cons.prems(2)] show ?thesis .
  next
    case False
    then obtain te fe where nj: "t \<notin> je" and te: "get_entity reg t = Some te"
        and fe: "get_entity reg f = Some fe"
      by auto
    from build_path_joins_step [OF Cons.prems(1) [unfolded step] nj te fe]
    obtain a b c' d e where
        s: "sanitize_identifier (schema_name te) = Inr a"
           "sanitize_identifier (table_name te) = Inr b"
           "sanitize_identifier (table_name fe) = Inr c'"
           "sanitize_identifier ff = Inr d"
           "sanitize_identifier tf = Inr e"
      and r: "build_path_joins reg rest
                (jc @ [join_type_sql jt @ '' JOIN '' @ a @ ''.'' @ b @ '' ON '' @ c' @ ''.'' @ d
                       @ '' = '' @ b @ ''.'' @ e])
                (insert t je) = Inr (jc', je')"
      by blast
    have "join_clause (join_type_sql jt @ '' JOIN '' @ a @ ''.'' @ b @ '' ON '' @ c'
                       @ ''.'' @ d @ '' = '' @ b @ ''.'' @ e)"
      unfolding join_clause_def
      by (intro exI [of _ jt] exI [of _ a] exI [of _ b] exI [of _ c'] exI [of _ d]
            exI [of _ e] conjI refl sanitize_identifier_match [OF s(1)]
            sanitize_identifier_match [OF s(2)] sanitize_identifier_match [OF s(3)]
            sanitize_identifier_match [OF s(4)] sanitize_identifier_match [OF s(5)])
    with Cons.prems(2) have "\<forall>c \<in> set (jc @ [join_type_sql jt @ '' JOIN '' @ a @ ''.'' @ b
               @ '' ON '' @ c' @ ''.'' @ d @ '' = '' @ b @ ''.'' @ e]). join_clause c"
      by simp
    from Cons.IH [OF r this] show ?thesis .
  qed
qed

lemma build_joins_clauses:
  assumes "build_joins reg primary used jc je = Inr jc'"
    and "\<forall>c \<in> set jc. join_clause c"
  shows "\<forall>c \<in> set jc'. join_clause c"
  using assms
proof (induction used arbitrary: jc je)
  case Nil
  then show ?case by simp
next
  case (Cons a used)
  obtain k ent where a: "a = (k, ent)" by (cases a)
  show ?case
  proof (cases "k = primary")
    case True
    with Cons a show ?thesis by simp
  next
    case False
    with Cons.prems(1) a obtain path res where
        p: "build_path_joins reg path jc je = Inr res"
        and r: "build_joins reg primary used (fst res) (snd res) = Inr jc'"
      by (auto simp: bind_error_Inr_iff split: option.splits)
    from p have "build_path_joins reg path jc je = Inr (fst res, snd res)" by simp
    from build_path_joins_clauses [OF this Cons.prems(2)] Cons.IH [OF r]
    show ?thesis by blast
  qed
qed

lemma build_clauses_Inr:
  assumes "build_clauses reg env config = Inr (parts, params)"
  obtains primary sp gb schema table jc st ta' wc idx ops where
    "get_entity reg (primary_entity config) = Some primary"
    "build_select config (collect_used_entities reg config primary)
       (table_aliases_of (collect_used_entities reg config primary))
       (selected_fields config) [] [] = Inr (sp, gb)"
    "sp \<noteq> []"
    "sanitize_identifier (schema_name primary) = Inr schema"
    "sanitize_identifier (table_name primary) = Inr table"
    "build_joins reg (primary_entity config) (collect_used_entities reg config primary) []
       {primary_entity config} = Inr jc"
    "build_where (collect_used_entities reg config primary)
       (table_aliases_of (collect_used_entities reg config primary)) (filters config) [] [] 1
       = Inr st"
    "build_time_filter reg env config
       (table_aliases_of (collect_used_entities reg config primary)) st
       = Inr (ta', wc, params, idx)"
    "build_order (collect_used_entities reg config primary) ta' (sorting config) [] = Inr ops"
    "parts = sql_parts sp (schema @ ''.'' @ table) jc wc gb ops (limit config)"
proof -
  from assms obtain primary where p: "get_entity reg (primary_entity config) = Some primary"
    by (auto simp: build_clauses_def split: option.splits)
  from assms p show ?thesis
    by (auto simp: build_clauses_def Let_def bind_error_Inr_iff split: if_splits intro: that)
qed

lemma join_type_sql_cases:
  "join_type_sql jt = ''INNER'' \<or> join_type_sql jt = ''LEFT'' \<or> join_type_sql jt = ''RIGHT''"
  by (auto simp: join_type_sql_def)

lemma join_clause_not_group_by: "join_clause c \<Longrightarrow> \<not> starts_with ''GROUP BY '' c"
proof -
  assume "join_clause c"
  then obtain jt rest where c: "c = join_type_sql jt @ '' JOIN '' @ rest"
    unfolding join_clause_def by blast
  from join_type_sql_cases [of jt] show ?thesis
    unfolding c by (auto simp: starts_with_def)
qed

lemma filter_none: "\<forall>x \<in> set xs. \<not> P x \<Longrightarrow> filter P xs = []"
  by (induction xs) simp_all

lemma sql_parts_group_by:
  assumes "\<forall>c \<in> set jc. join_clause c"
  shows "filter (starts_with ''GROUP BY '') (sql_parts sp from_clause jc wc gb ops lim)
           = (if gb = [] then [] else [''GROUP BY '' @ join_str '', '' gb])"
proof -
  from assms have "filter (starts_with ''GROUP BY '') jc = []"
    by (intro filter_none) (blast dest: join_clause_not_group_by)
  then show ?thesis
    by (simp add: sql_parts_def starts_with_def)
qed

text \<open>
  C6 (as amended).  For every configuration that the build accepts, the clauses that start
  with \<^verbatim>\<open>GROUP BY\<close> are: none when there is no GROUP BY term, and otherwise the single
  clause listing the terms, one for each selected field that resolves, carries no
  aggregation while some selected field carries one, and is listed in the explicit
  group-by list.  With an absent or empty group-by list no GROUP BY clause is emitted.
  The query text is the clauses joined by line breaks.
\<close>

theorem group_by_clause:
  assumes "build_clauses reg env config = Inr (parts, params)"
  shows "filter (starts_with ''GROUP BY '') parts
           = (if group_by_terms reg config = [] then []
              else [''GROUP BY '' @ join_str '', '' (group_by_terms reg config)])
         \<and> ((group_by config = None \<or> group_by config = Some [])
              \<longrightarrow> filter (starts_with ''GROUP BY '') parts = [])
         \<and> build_query reg env config = Inr (join_str [CHR 0x0A] parts, params)"
proof -
  from assms obtain primary sp gb schema table jc st ta' wc idx ops where
      p: "get_entity reg (primary_entity config) = Some primary"
    and sel: "build_select config (collect_used_entities reg config primary)
       (table_aliases_of (collect_used_entities reg config primary))
       (selected_fields config) [] [] = Inr (sp, gb)"
    and jn: "build_joins reg (primary_entity config) (collect_used_entities reg config primary) []
       {primary_entity config} = Inr jc"
    and parts: "parts = sql_parts sp (schema @ ''.'' @ table) jc wc gb ops (limit config)"
    by (rule build_clauses_Inr)
  have "\<forall>f \<in> set (selected_fields config).
          map_of (collect_used_entities reg config primary) (sf_entity_id f)
            = get_entity reg (sf_entity_id f)"
    using collect_used_selected [OF p] by blast
  from build_select_group_by [OF sel this]
  have gb: "gb = group_by_terms reg config"
    by (simp add: group_by_terms_def)
  have jc: "\<forall>c \<in> set jc. join_clause c"
    by (rule build_joins_clauses [OF jn]) simp
  have 1: "filter (starts_with ''GROUP BY '') parts
           = (if group_by_terms reg config = [] then []
              else [''GROUP BY '' @ join_str '', '' (group_by_terms reg config)])"
    unfolding parts gb by (rule sql_parts_group_by [OF jc])
  have 2: "group_by config = None \<or> group_by config = Some []
             \<Longrightarrow> group_by_terms reg config = []"
    by (auto simp: group_by_terms_def is_in_group_by_def split: option.splits)
  from 1 2 assms show ?thesis
    by (auto simp: build_query_def)
qed

theorem group_by_clause_witness:
  "build_clauses ENTITIES example_env group_by_config
     = Inr ([''SELECT vehicles.vehicle_label AS vehicles_vehicle_label, MAX(vehicles.max_speed) AS max_vehicles_max_speed'',
             ''FROM raw_business_data.vehicles'',
             ''GROUP BY vehicles.vehicle_label'',
             ''LIMIT 1000''], [])
   \<and> group_by_terms ENTITIES group_by_config = [''vehicles.vehicle_label'']
   \<and> filter (starts_with ''GROUP BY '')
         [''SELECT vehicles.vehicle_label AS vehicles_vehicle_label, MAX(vehicles.max_speed) AS max_vehicles_max_speed'',
          ''FROM raw_business_data.vehicles'',
          ''GROUP BY vehicles.vehicle_label'',
          ''LIMIT 1000'']
       = [''GROUP BY '' @ join_str '', '' (group_by_terms ENTITIES group_by_config)]"
proof -
  have b: "build_clauses ENTITIES example_env group_by_config
     = Inr ([''SELECT vehicles.vehicle_label AS vehicles_vehicle_label, MAX(vehicles.max_speed) AS max_vehicles_max_speed'',
             ''FROM raw_business_data.vehicles'',
             ''GROUP BY vehicles.vehicle_label'',
             ''LIMIT 1000''], [])"
    by code_simp
  have t: "group_by_terms ENTITIES group_by_config = [''vehicles.vehicle_label'']"
    by code_simp
  from group_by_clause [OF b] b t show ?thesis
    by simp
qed

text \<open>
  The claim as stated fails for a selected field that does not resolve: it is listed in the
  group-by list, carries no aggregation beside an aggregated field, and contributes no
  GROUP BY term.
\<close>

theorem group_by_clause_counterexample:
  "build_query ENTITIES example_env group_by_unresolved_config
     = Inr (''SELECT MAX(vehicles.max_speed) AS max_vehicles_max_speed\<newline>FROM raw_business_data.vehicles\<newline>LIMIT 1000'', [])"
  by code_simp

subsection \<open>The build and the clock\<close>

lemma calculate_time_range_absolute:
  "tr_type tr = ''absolute''
     \<Longrightarrow> calculate_time_range (env\<lparr>utcnow := t\<rparr>) tr = calculate_time_range env tr"
  by (simp add: calculate_time_range_def parse_date_def cong: option.case_cong if_cong)

lemma calculate_time_range_relative_shape:
  "tr_type tr \<noteq> ''absolute'' \<Longrightarrow> calculate_time_range env tr = Inr (s, e)
     \<Longrightarrow> \<exists>a b. s = Some a \<and> e = Some b"
  by (auto simp: calculate_time_range_def Let_def bind_error_Inr_iff)

lemma time_bound_Some:
  "time_bound n op (Some t) (wc, ps, idx)
     = (wc @ [n @ op @ ''$'' @ str_nat idx], ps @ [PStr (isoformat t)], Suc idx)"
  by (simp add: time_bound_def)

lemma time_bound_None: "time_bound n op None st = st"
  by (simp add: time_bound_def)

lemma build_time_filter_clock:
  assumes "build_time_filter reg env config ta (wc0, ps0, idx0) = Inr (ta1, wc, ps, idx)"
    and "build_time_filter reg (env\<lparr>utcnow := t\<rparr>) config ta (wc0, ps0, idx0)
           = Inr (ta1', wc', ps', idx')"
  shows "ta1' = ta1 \<and> wc' = wc \<and> idx' = idx
         \<and> (\<exists>x x'. ps = ps0 @ x \<and> ps' = ps0 @ x' \<and> length x' = length x \<and> length x \<le> 2)"
proof (cases "time_range config")
  case None
  with assms show ?thesis by (simp add: build_time_filter_def)
next
  case (Some tr)
  show ?thesis
  proof (cases "str_or (time_field config) [] = []
                \<or> get_entity reg (str_or (time_field_entity config) (primary_entity config)) = None")
    case True
    then show ?thesis
    proof
      assume "str_or (time_field config) [] = []"
      with assms Some show ?thesis by (simp add: build_time_filter_def)
    next
      assume "get_entity reg (str_or (time_field_entity config) (primary_entity config)) = None"
      with assms Some show ?thesis by (simp add: build_time_filter_def split: if_splits)
    qed
  next
    case False
    then obtain te where te: "get_entity reg (str_or (time_field_entity config)
                                 (primary_entity config)) = Some te"
        and tf: "str_or (time_field config) [] \<noteq> []"
      by auto
    show ?thesis
    proof (cases "find_field te (str_or (time_field config) [])")
      case None
      with assms Some te tf show ?thesis by (simp add: build_time_filter_def)
    next
      case fld: (Some fld)
      from assms(1) Some te tf fld obtain s e a n where
          c: "calculate_time_range env tr = Inr (s, e)"
        and r: "ta1 = (if str_or (time_field_entity config) (primary_entity config)
                          \<in> fst ` set ta then ta
                       else ta @ [(str_or (time_field_entity config) (primary_entity config),
                                   table_name te)])"
               "lookup_alias ta1 (str_or (time_field_entity config) (primary_entity config))
                  = Inr a"
               "get_qualified_field_name te fld a = Inr n"
               "(wc, ps, idx) = time_bound n '' <= '' e (time_bound n '' >= '' s (wc0, ps0, idx0))"
        by (auto simp: build_time_filter_def Let_def bind_error_Inr_iff)
      from assms(2) Some te tf fld obtain s' e' a' n' where
          c': "calculate_time_range (env\<lparr>utcnow := t\<rparr>) tr = Inr (s', e')"
        and r': "ta1' = (if str_or (time_field_entity config) (primary_entity config)
                          \<in> fst ` set ta then ta
                       else ta @ [(str_or (time_field_entity config) (primary_entity config),
                                   table_name te)])"
               "lookup_alias ta1' (str_or (time_field_entity config) (primary_entity config))
                  = Inr a'"
               "get_qualified_field_name te fld a' = Inr n'"
               "(wc', ps', idx')
                  = time_bound n' '' <= '' e' (time_bound n' '' >= '' s' (wc0, ps0, idx0))"
        by (auto simp: build_time_filter_def Let_def bind_error_Inr_iff)
      from r(1) r'(1) have ta: "ta1' = ta1" by simp
      with r(2) r'(2) have "a' = a" by simp
      with r(3) r'(3) have n: "n' = n" by simp
      show ?thesis
      proof (cases "tr_type tr = ''absolute''")
        case True
        from c c' calculate_time_range_absolute [OF True, of t env]
        have se: "s' = s" "e' = e" by simp_all
        from r(4) r'(4) show ?thesis
          unfolding se n ta
          by (cases s; cases e) (auto simp: time_bound_Some time_bound_None)
      next
        case False
        from calculate_time_range_relative_shape [OF False c]
        obtain x y where s: "s = Some x" "e = Some y" by blast
        from calculate_time_range_relative_shape [OF False c']
        obtain x' y' where s': "s' = Some x'" "e' = Some y'" by blast
        from r(4) r'(4) show ?thesis
          unfolding s s' n ta by (simp add: time_bound_Some)
      qed
    qed
  qed
qed

lemma build_time_filter_clock_free:
  assumes "time_range config = None
           \<or> (\<exists>tr. time_range config = Some tr \<and> tr_type tr = ''absolute'')"
  shows "build_time_filter reg (env\<lparr>utcnow := t\<rparr>) config ta st
           = build_time_filter reg env config ta st"
  using assms
  by (auto simp: build_time_filter_def calculate_time_range_absolute
        cong: option.case_cong if_cong)

lemma build_clauses_clock_free:
  assumes "time_range config = None
           \<or> (\<exists>tr. time_range config = Some tr \<and> tr_type tr = ''absolute'')"
  shows "build_clauses reg (env\<lparr>utcnow := t\<rparr>) config = build_clauses reg env config"
  unfolding build_clauses_def
  by (simp add: build_time_filter_clock_free [OF assms] cong: option.case_cong if_cong)

lemma build_clauses_clock:
  assumes "build_clauses reg env config = Inr (parts, params)"
    and "build_clauses reg (env\<lparr>utcnow := t\<rparr>) config = Inr (parts', params')"
  shows "parts' = parts
         \<and> (\<exists>common x x'. params = common @ x \<and> params' = common @ x'
                \<and> length x' = length x \<and> length x \<le> 2)"
proof -
  from assms(1) obtain primary sp gb schema table jc st ta1 wc idx ops where
      a: "get_entity reg (primary_entity config) = Some primary"
         "build_select config (collect_used_entities reg config primary)
            (table_aliases_of (collect_used_entities reg config primary))
            (selected_fields config) [] [] = Inr (sp, gb)"
         "sanitize_identifier (schema_name primary) = Inr schema"
         "sanitize_identifier (table_name primary) = Inr table"
         "build_joins reg (primary_entity config) (collect_used_entities reg config primary) []
            {primary_entity config} = Inr jc"
         "build_where (collect_used_entities reg config primary)
            (table_aliases_of (collect_used_entities reg config primary)) (filters config)
            [] [] 1 = Inr st"
         "build_time_filter reg env config
            (table_aliases_of (collect_used_entities reg config primary)) st
            = Inr (ta1, wc, params, idx)"
         "build_order (collect_used_entities reg config primary) ta1 (sorting config) []
            = Inr ops"
         "parts = sql_parts sp (schema @ ''.'' @ table) jc wc gb ops (limit config)"
    by (rule build_clauses_Inr)
  from assms(2) obtain primary' sp' gb' schema' table' jc' st' ta1' wc' idx' ops' where
      b: "get_entity reg (primary_entity config) = Some primary'"
         "build_select config (collect_used_entities reg config primary')
            (table_aliases_of (collect_used_entities reg config primary'))
            (selected_fields config) [] [] = Inr (sp', gb')"
         "sanitize_identifier (schema_name primary') = Inr schema'"
         "sanitize_identifier (table_name primary') = Inr table'"
         "build_joins reg (primary_entity config) (collect_used_entities reg config primary') []
            {primary_entity config} = Inr jc'"
         "build_where (collect_used_entities reg config primary')
            (table_aliases_of (collect_used_entities reg config primary')) (filters config)
            [] [] 1 = Inr st'"
         "build_time_filter reg (env\<lparr>utcnow := t\<rparr>) config
            (table_aliases_of (collect_used_entities reg config primary')) st'
            = Inr (ta1', wc', params', idx')"
         "build_order (collect_used_entities reg config primary') ta1' (sorting config) []
            = Inr ops'"
         "parts' = sql_parts sp' (schema' @ ''.'' @ table') jc' wc' gb' ops' (limit config)"
    by (rule build_clauses_Inr)
  from a(1) b(1) have p: "primary' = primary" by simp
  from a(2) b(2) p have s: "sp' = sp" "gb' = gb" by simp_all
  from a(3,4) b(3,4) p have n: "schema' = schema" "table' = table" by simp_all
  from a(5) b(5) p have j: "jc' = jc" by simp
  from a(6) b(6) p have st: "st' = st" by simp
  obtain wc0 ps0 idx0 where st0: "st = (wc0, ps0, idx0)" by (cases st)
  from build_time_filter_clock [OF a(7) [unfolded st0] b(7) [unfolded p st st0]]
  have tf: "ta1' = ta1" "wc' = wc"
    and ps: "\<exists>x x'. params = ps0 @ x \<and> params' = ps0 @ x'
               \<and> length x' = length x \<and> length x \<le> 2"
    by simp_all
  from a(8) b(8) p tf have o: "ops' = ops" by simp
  from a(9) b(9) s n j tf o have "parts' = parts" by simp
  with ps show ?thesis by blast
qed

lemma clock_eval_1:
  "build_query ENTITIES example_env clock_config
     = Inr (''SELECT vehicles.vehicle_label AS vehicles_vehicle_label\<newline>FROM raw_business_data.vehicles\<newline>WHERE vehicles.record_added_at >= $1 AND vehicles.record_added_at <= $2\<newline>LIMIT 1000'',
            [PStr ''2025-10-30T01:02:03.000004'', PStr ''2025-11-06T01:02:03.000004''])"
  by code_simp

lemma clock_eval_2:
  "build_query ENTITIES (example_env\<lparr>utcnow := 63897987724000004\<rparr>) clock_config
     = Inr (''SELECT vehicles.vehicle_label AS vehicles_vehicle_label\<newline>FROM raw_business_data.vehicles\<newline>WHERE vehicles.record_added_at >= $1 AND vehicles.record_added_at <= $2\<newline>LIMIT 1000'',
            [PStr ''2025-10-30T01:02:04.000004'', PStr ''2025-11-06T01:02:04.000004''])"
  by code_simp

text \<open>
  C7 (as amended).  The clock is the only input of the build besides the registry and the
  configuration.  For a configuration without a time range, or with an absolute one, the
  result of the build does not depend on the clock.  For every configuration, two builds
  at different clock readings that both succeed return the same query text, and parameter
  arrays of the same length that differ at most in their last two elements, the bounds of
  the relative time range.
\<close>

theorem build_query_clock:
  "((time_range config = None
       \<or> (\<exists>tr. time_range config = Some tr \<and> tr_type tr = ''absolute''))
      \<longrightarrow> build_query reg (env\<lparr>utcnow := t\<rparr>) config = build_query reg env config)
   \<and> (build_query reg env config = Inr (sql, params)
        \<and> build_query reg (env\<lparr>utcnow := t\<rparr>) config = Inr (sql', params')
      \<longrightarrow> sql' = sql
          \<and> (\<exists>common x x'. params = common @ x \<and> params' = common @ x'
                 \<and> length x' = length x \<and> length x \<le> 2))"
proof (rule conjI; rule impI)
  assume "time_range config = None
          \<or> (\<exists>tr. time_range config = Some tr \<and> tr_type tr = ''absolute'')"
  then show "build_query reg (env\<lparr>utcnow := t\<rparr>) config = build_query reg env config"
    unfolding build_query_def by (simp only: build_clauses_clock_free)
next
  assume a: "build_query reg env config = Inr (sql, params)
             \<and> build_query reg (env\<lparr>utcnow := t\<rparr>) config = Inr (sql', params')"
  then obtain parts parts' where
      1: "build_clauses reg env config = Inr (parts, params)" "sql = join_str [CHR 0x0A] parts"
    and 2: "build_clauses reg (env\<lparr>utcnow := t\<rparr>) config = Inr (parts', params')"
           "sql' = join_str [CHR 0x0A] parts'"
    by (auto simp: build_query_def bind_error_Inr_iff)
  from build_clauses_clock [OF 1(1) 2(1)] 1(2) 2(2)
  show "sql' = sql
        \<and> (\<exists>common x x'. params = common @ x \<and> params' = common @ x'
               \<and> length x' = length x \<and> length x \<le> 2)"
    by simp
qed

theorem build_query_clock_witness:
  "build_query ENTITIES (example_env\<lparr>utcnow := 0\<rparr>)
       (simple_config ''objects'' [select_field ''objects'' ''object_id'' None])
     = build_query ENTITIES example_env
         (simple_config ''objects'' [select_field ''objects'' ''object_id'' None])
   \<and> (\<exists>common x x'.
         [PStr ''2025-10-30T01:02:03.000004'', PStr ''2025-11-06T01:02:03.000004''] = common @ x
         \<and> [PStr ''2025-10-30T01:02:04.000004'', PStr ''2025-11-06T01:02:04.000004'']
             = common @ x'
         \<and> length x' = length x \<and> length x \<le> 2)"
proof -
  have "time_range (simple_config ''objects'' [select_field ''objects'' ''object_id'' None])
          = None"
    by (simp add: simple_config_def)
  with build_query_clock [of "simple_config ''objects'' [select_field ''objects'' ''object_id'' None]"
         ENTITIES 0 example_env]
  have 1: "build_query ENTITIES (example_env\<lparr>utcnow := 0\<rparr>)
       (simple_config ''objects'' [select_field ''objects'' ''object_id'' None])
     = build_query ENTITIES example_env
         (simple_config ''objects'' [select_field ''objects'' ''object_id'' None])"
    by blast
  from clock_eval_1 clock_eval_2
    build_query_clock [of clock_config ENTITIES 63897987724000004 example_env]
  have "\<exists>common x x'.
         [PStr ''2025-10-30T01:02:03.000004'', PStr ''2025-11-06T01:02:03.000004''] = common @ x
         \<and> [PStr ''2025-10-30T01:02:04.000004'', PStr ''2025-11-06T01:02:04.000004'']
             = common @ x'
         \<and> length x' = length x \<and> length x \<le> 2"
    by blast
  with 1 show ?thesis by blast
qed

theorem build_query_clock_counterexample:
  "build_query ENTITIES example_env clock_config
     \<noteq> build_query ENTITIES (example_env\<lparr>utcnow := 63897987724000004\<rparr>) clock_config"
  unfolding clock_eval_1 clock_eval_2 by simp

end
